theory Spec2Isabelle
  imports Complex_Main "HOL-Library.Multiset"
begin

section \<open>DataSet.h: a keyed store of time streams\<close>

text \<open>
  \<^verbatim>\<open>DataSet<KeyType, ObjectType>\<close> holds a \<^verbatim>\<open>std::map<KeyType, DataStream>\<close> where a
  \<^verbatim>\<open>DataStream\<close> is a \<^verbatim>\<open>std::multimap<double, ObjectType>\<close>, and one \<^verbatim>\<open>NullObject\<close>
  "for empty references".

  A multimap is modelled by the list of its (timestamp, object) nodes in iteration order.
  An iterator is the position of a node in that list; \<^verbatim>\<open>begin()\<close> is position 0 and
  \<^verbatim>\<open>end()\<close> is the length of the list. Timestamps are \<^verbatim>\<open>double\<close> in the source and
  real numbers here: rounding and NaN keys are outside the model.
\<close>

type_synonym 'o DataStream = "(real \<times> 'o) list"

record ('k, 'o) DataSet =
  DataStreams :: "'k \<rightharpoonup> 'o DataStream"
  NullObject :: 'o

text \<open>
  What a call can do besides returning a value. \<open>NotFound\<close> is the source's
  \<^verbatim>\<open>return false\<close>. \<open>out_of_range\<close> is the exception of \<^verbatim>\<open>std::map::at\<close>.
  \<open>IteratorOutOfBounds\<close> (moving an iterator before \<^verbatim>\<open>begin()\<close> or past \<^verbatim>\<open>end()\<close>)
  and \<open>DerefEnd\<close> (reading or erasing through \<^verbatim>\<open>end()\<close>) are undefined behaviour in C++.
\<close>

datatype error = NotFound | out_of_range | IteratorOutOfBounds | DerefEnd

subsection \<open>The operations of std::multimap that DataSet uses\<close>

definition mm_begin :: nat where
  "mm_begin = 0"

definition mm_end :: "'o DataStream \<Rightarrow> nat" where
  "mm_end s = length s"

text \<open>First position whose key is not less than \<open>t\<close>; first position whose key is greater.\<close>

definition lower_bound :: "'o DataStream \<Rightarrow> real \<Rightarrow> nat" where
  "lower_bound s t = length (takeWhile (\<lambda>p. fst p < t) s)"

definition upper_bound :: "'o DataStream \<Rightarrow> real \<Rightarrow> nat" where
  "upper_bound s t = length (takeWhile (\<lambda>p. fst p \<le> t) s)"

text \<open>
  \<^verbatim>\<open>find\<close> as libstdc++, libc++ and the MSVC library implement it: the lower bound, when
  its key is equivalent to \<open>t\<close>, and \<^verbatim>\<open>end()\<close> otherwise. Among several nodes with the key
  it is the first one; \<^verbatim>\<open>getElement\<close> relies on that when it advances by \<^verbatim>\<open>Number\<close>.
\<close>

definition find_mm :: "'o DataStream \<Rightarrow> real \<Rightarrow> nat" where
  "find_mm s t =
     (let j = lower_bound s t
      in if j = mm_end s \<or> t < fst (s ! j) then mm_end s else j)"

text \<open>\<^verbatim>\<open>count\<close> is the distance between the two bounds of \<^verbatim>\<open>equal_range\<close>.\<close>

definition count_mm :: "'o DataStream \<Rightarrow> real \<Rightarrow> nat" where
  "count_mm s t = upper_bound s t - lower_bound s t"

text \<open>
  \<^verbatim>\<open>emplace\<close> into a multimap puts the new node at the upper bound of the nodes with an
  equivalent key (C++11 and later), so equal timestamps stay in insertion order.
\<close>

definition emplace :: "'o DataStream \<Rightarrow> real \<Rightarrow> 'o \<Rightarrow> 'o DataStream" where
  "emplace s t x = take (upper_bound s t) s @ (t, x) # drop (upper_bound s t) s"

definition erase_it :: "'o DataStream \<Rightarrow> nat \<Rightarrow> error + 'o DataStream" where
  "erase_it s i = (if i < length s then Inr (take i s @ drop (Suc i) s) else Inl DerefEnd)"

definition erase_key :: "'o DataStream \<Rightarrow> real \<Rightarrow> 'o DataStream" where
  "erase_key s t = take (lower_bound s t) s @ drop (upper_bound s t) s"

text \<open>\<^verbatim>\<open>std::advance(It, n)\<close> on a bidirectional iterator, \<open>n\<close> of either sign.\<close>

definition advance :: "'o DataStream \<Rightarrow> nat \<Rightarrow> int \<Rightarrow> error + nat" where
  "advance s i n =
     (let j = int i + n
      in if 0 \<le> j \<and> j \<le> int (length s) then Inr (nat j) else Inl IteratorOutOfBounds)"

text \<open>\<^verbatim>\<open>It->first\<close> and \<^verbatim>\<open>It->second\<close>.\<close>

definition key_at :: "'o DataStream \<Rightarrow> nat \<Rightarrow> error + real" where
  "key_at s i = (if i < length s then Inr (fst (s ! i)) else Inl DerefEnd)"

definition value_at :: "'o DataStream \<Rightarrow> nat \<Rightarrow> error + 'o" where
  "value_at s i = (if i < length s then Inr (snd (s ! i)) else Inl DerefEnd)"

text \<open>\<^verbatim>\<open>_DataStreams.at(ID)\<close> throws when the key is missing.\<close>

definition at_ID :: "('k, 'o) DataSet \<Rightarrow> 'k \<Rightarrow> error + 'o DataStream" where
  "at_ID D ID = (case DataStreams D ID of None \<Rightarrow> Inl out_of_range | Some s \<Rightarrow> Inr s)"

subsection \<open>Counting and checking\<close>

definition checkID :: "('k, 'o) DataSet \<Rightarrow> 'k \<Rightarrow> bool" where
  "checkID D ID = (DataStreams D ID \<noteq> None)"

definition countElement :: "('k, 'o) DataSet \<Rightarrow> 'k \<Rightarrow> real \<Rightarrow> int" where
  "countElement D ID Timestamp =
     (case DataStreams D ID of None \<Rightarrow> 0 | Some s \<Rightarrow> int (count_mm s Timestamp))"

definition checkElement :: "('k, 'o) DataSet \<Rightarrow> 'k \<Rightarrow> real \<Rightarrow> int \<Rightarrow> bool" where
  "checkElement D ID Timestamp Number = (countElement D ID Timestamp > Number)"

subsection \<open>Adding and removing\<close>

text \<open>
  \<^verbatim>\<open>addElement\<close> creates the stream of a new key and emplaces into it; the \<^verbatim>\<open>at(ID)\<close> that
  follows the creation cannot throw.
\<close>

definition addElement :: "('k, 'o) DataSet \<Rightarrow> 'k \<Rightarrow> real \<Rightarrow> 'o \<Rightarrow> ('k, 'o) DataSet" where
  "addElement D ID Timestamp Object =
     (let S = (if \<not> checkID D ID then (DataStreams D)(ID \<mapsto> []) else DataStreams D)
      in D\<lparr>DataStreams := S(ID \<mapsto> emplace (case S ID of None \<Rightarrow> [] | Some s \<Rightarrow> s) Timestamp Object)\<rparr>)"

text \<open>
  \<^verbatim>\<open>removeElement(ID, Timestamp, Number)\<close>: one node is erased, and the key with it when
  its stream becomes empty. Where the element does not exist the source prints an error
  and leaves the data set as it is.
\<close>

definition removeElement :: "('k, 'o) DataSet \<Rightarrow> 'k \<Rightarrow> real \<Rightarrow> int \<Rightarrow> error + ('k, 'o) DataSet" where
  "removeElement D ID Timestamp Number =
     (if checkElement D ID Timestamp Number then
        (case at_ID D ID of Inl e \<Rightarrow> Inl e | Inr s \<Rightarrow>
         (case advance s (find_mm s Timestamp) Number of Inl e \<Rightarrow> Inl e | Inr It \<Rightarrow>
          (case erase_it s It of Inl e \<Rightarrow> Inl e | Inr s' \<Rightarrow>
             Inr (D\<lparr>DataStreams :=
                     (if s' = [] then (DataStreams D)(ID := None)
                      else (DataStreams D)(ID \<mapsto> s'))\<rparr>))))
      else Inr D)"

text \<open>
  \<^verbatim>\<open>removeElement(ID, Timestamp)\<close>: all nodes of the timestamp are erased, and the key with
  them when its stream becomes empty.
\<close>

definition removeElement_all :: "('k, 'o) DataSet \<Rightarrow> 'k \<Rightarrow> real \<Rightarrow> error + ('k, 'o) DataSet" where
  "removeElement_all D ID Timestamp =
     (if checkElement D ID Timestamp 0 then
        (case at_ID D ID of Inl e \<Rightarrow> Inl e | Inr s \<Rightarrow>
           (let s' = erase_key s Timestamp
            in Inr (D\<lparr>DataStreams :=
                      (if s' = [] then (DataStreams D)(ID := None)
                       else (DataStreams D)(ID \<mapsto> s'))\<rparr>)))
      else Inr D)"

subsection \<open>Element access\<close>

text \<open>
  The accessor of lines 171 to 184 returns \<^verbatim>\<open>ObjectType &\<close>. A reference is either to the
  object of a node of the key's stream or to the data set's \<^verbatim>\<open>NullObject\<close>.
\<close>

datatype reference = StreamNode nat | NullObjectRef

definition getElement :: "('k, 'o) DataSet \<Rightarrow> 'k \<Rightarrow> real \<Rightarrow> int \<Rightarrow> error + reference" where
  "getElement D ID Timestamp Number =
     (if checkElement D ID Timestamp Number then
        (case at_ID D ID of Inl e \<Rightarrow> Inl e | Inr s \<Rightarrow>
         (case advance s (find_mm s Timestamp) Number of Inl e \<Rightarrow> Inl e | Inr It \<Rightarrow>
          (case value_at s It of Inl e \<Rightarrow> Inl e | Inr _ \<Rightarrow> Inr (StreamNode It))))
      else Inr NullObjectRef)"

text \<open>Reading through a reference that \<open>getElement D ID\<close> returned.\<close>

definition deref :: "('k, 'o) DataSet \<Rightarrow> 'k \<Rightarrow> reference \<Rightarrow> 'o" where
  "deref D ID r =
     (case r of
        NullObjectRef \<Rightarrow> NullObject D
      | StreamNode i \<Rightarrow>
          (case DataStreams D ID of None \<Rightarrow> NullObject D | Some s \<Rightarrow> snd (s ! i)))"

text \<open>
  The accessor of lines 186 to 199 copies the object out and returns \<^verbatim>\<open>true\<close>, or
  returns \<^verbatim>\<open>false\<close> and leaves \<^verbatim>\<open>Element\<close> untouched.
\<close>

definition getElement_out :: "('k, 'o) DataSet \<Rightarrow> 'k \<Rightarrow> real \<Rightarrow> int \<Rightarrow> error + 'o" where
  "getElement_out D ID Timestamp Number =
     (if checkElement D ID Timestamp Number then
        (case at_ID D ID of Inl e \<Rightarrow> Inl e | Inr s \<Rightarrow>
         (case advance s (find_mm s Timestamp) Number of Inl e \<Rightarrow> Inl e | Inr It \<Rightarrow>
            value_at s It))
      else Inl NotFound)"

text \<open>\<^verbatim>\<open>getElements\<close>: the objects of \<^verbatim>\<open>equal_range(Timestamp)\<close>, in iteration order.\<close>

definition getElements :: "('k, 'o) DataSet \<Rightarrow> 'k \<Rightarrow> real \<Rightarrow> 'o list" where
  "getElements D ID Timestamp =
     (case DataStreams D ID of
        None \<Rightarrow> []
      | Some s \<Rightarrow>
          map snd (take (upper_bound s Timestamp - lower_bound s Timestamp)
                        (drop (lower_bound s Timestamp) s)))"

subsection \<open>Temporal queries\<close>

definition getTimeFirst :: "('k, 'o) DataSet \<Rightarrow> 'k \<Rightarrow> error + real" where
  "getTimeFirst D ID =
     (if checkID D ID then
        (case at_ID D ID of Inl e \<Rightarrow> Inl e | Inr s \<Rightarrow> key_at s mm_begin)
      else Inl NotFound)"

definition getTimeLast :: "('k, 'o) DataSet \<Rightarrow> 'k \<Rightarrow> error + real" where
  "getTimeLast D ID =
     (if checkID D ID then
        (case at_ID D ID of Inl e \<Rightarrow> Inl e | Inr s \<Rightarrow>
         (case advance s (mm_end s) (- 1) of Inl e \<Rightarrow> Inl e | Inr It \<Rightarrow> key_at s It))
      else Inl NotFound)"

definition getTimeNext :: "('k, 'o) DataSet \<Rightarrow> 'k \<Rightarrow> real \<Rightarrow> error + real" where
  "getTimeNext D ID Timestamp =
     (if checkElement D ID Timestamp 0 then
        (case at_ID D ID of Inl e \<Rightarrow> Inl e | Inr s \<Rightarrow>
           (let It = upper_bound s Timestamp
            in if It \<noteq> mm_end s then key_at s It else Inl NotFound))
      else Inl NotFound)"

definition getTimePrev :: "('k, 'o) DataSet \<Rightarrow> 'k \<Rightarrow> real \<Rightarrow> error + real" where
  "getTimePrev D ID Timestamp =
     (let NextElements = countElement D ID Timestamp
      in if NextElements > 0 then
           (case at_ID D ID of Inl e \<Rightarrow> Inl e | Inr s \<Rightarrow>
            (case advance s (find_mm s Timestamp) (- (NextElements - 1)) of
               Inl e \<Rightarrow> Inl e
             | Inr It \<Rightarrow>
                 if It \<noteq> mm_begin then
                   (case advance s It (- 1) of Inl e \<Rightarrow> Inl e | Inr It' \<Rightarrow> key_at s It')
                 else Inl NotFound))
         else Inl NotFound)"

text \<open>
  \<^verbatim>\<open>getTimeCloseTo\<close>, branch by branch. The first test reads \<^verbatim>\<open>It->first\<close> before any
  comparison of \<^verbatim>\<open>It\<close> with \<^verbatim>\<open>end()\<close>.
\<close>

definition getTimeCloseTo :: "('k, 'o) DataSet \<Rightarrow> 'k \<Rightarrow> real \<Rightarrow> error + real" where
  "getTimeCloseTo D ID Timestamp =
     (if \<not> checkID D ID then Inl NotFound
      else
        (case at_ID D ID of Inl e \<Rightarrow> Inl e | Inr s \<Rightarrow>
         (let It = lower_bound s Timestamp
          in case key_at s It of Inl e \<Rightarrow> Inl e | Inr k \<Rightarrow>
               if k = Timestamp then Inr k
               else if It = mm_end s \<and> It \<noteq> mm_begin then
                 (case advance s It (- 1) of Inl e \<Rightarrow> Inl e | Inr It' \<Rightarrow> key_at s It')
               else if It \<noteq> mm_end s \<and> It = mm_begin then Inr k
               else if It \<noteq> mm_end s \<and> It \<noteq> mm_begin then
                 (case getTimePrev D ID k of
                    Inr TimeBelow \<Rightarrow>
                      if k - Timestamp \<le> Timestamp - TimeBelow then Inr k else Inr TimeBelow
                  | Inl e \<Rightarrow> Inl e)
               else Inl NotFound)))"

text \<open>
  A multimap keeps its nodes ordered by key, whatever is done to it. The data sets the
  theorems speak about are those whose streams are so ordered.
\<close>

definition chronological :: "('k, 'o) DataSet \<Rightarrow> bool" where
  "chronological D = (\<forall>ID s. DataStreams D ID = Some s \<longrightarrow> sorted (map fst s))"

subsection \<open>Sequences of calls and example data\<close>

text \<open>
  \<open>addElements D calls\<close> makes the calls \<^verbatim>\<open>addElement(ID, Timestamp, Object)\<close> of the list one
  after the other, as \<^verbatim>\<open>merge\<close> does for the elements of another data set.
  \<open>inserted calls ID Timestamp\<close> lists the objects that those calls gave for one
  key and timestamp, in call order.
\<close>

fun addElements :: "('k, 'o) DataSet \<Rightarrow> ('k \<times> real \<times> 'o) list \<Rightarrow> ('k, 'o) DataSet" where
  "addElements D [] = D"
| "addElements D ((ID, Timestamp, Object) # calls) =
     addElements (addElement D ID Timestamp Object) calls"

definition inserted :: "('k \<times> real \<times> 'o) list \<Rightarrow> 'k \<Rightarrow> real \<Rightarrow> 'o list" where
  "inserted calls ID Timestamp =
     map (\<lambda>c. snd (snd c)) (filter (\<lambda>c. fst c = ID \<and> fst (snd c) = Timestamp) calls)"

definition empty_DataSet :: "(string, nat) DataSet" where
  "empty_DataSet = \<lparr>DataStreams = Map.empty, NullObject = 0\<rparr>"

text \<open>One key with timestamps 1, 2, 3, 3, and one with timestamps 1, 3, 3.\<close>

definition stream_1233 :: "(string, nat) DataSet" where
  "stream_1233 =
     addElements empty_DataSet
       [(''k'', 1, 10), (''k'', 2, 20), (''k'', 3, 30), (''k'', 3, 31)]"

definition stream_133 :: "(string, nat) DataSet" where
  "stream_133 = addElements empty_DataSet [(''k'', 1, 10), (''k'', 3, 30), (''k'', 3, 31)]"

text \<open>
  A stream in three parts around a timestamp \<open>t\<close>: the nodes before it, the nodes at it
  and the nodes after it.
\<close>

definition parts :: "real \<Rightarrow> 'o DataStream \<Rightarrow> 'o DataStream \<Rightarrow> 'o DataStream \<Rightarrow> bool" where
  "parts t A B C =
     ((\<forall>p\<in>set A. fst p < t) \<and> (\<forall>p\<in>set B. fst p = t) \<and> (\<forall>p\<in>set C. t < fst p))"

section \<open>IV19_GNSS.cpp: the application\<close>

subsection \<open>Types of the library\<close>

text \<open>
  Modelled from the spec: the enumerations \<^verbatim>\<open>ErrorModelType\<close>, \<^verbatim>\<open>ErrorModelMixtureType\<close>,
  \<^verbatim>\<open>ErrorModelTuningType\<close>, \<^verbatim>\<open>StateType\<close>, \<^verbatim>\<open>FactorType\<close> and \<^verbatim>\<open>SensorType\<close> are declared in
  headers that are not among the source files. They have the enumerators that the
  application names and that the spec lists; \<open>OtherErrorModel\<close>, \<open>OtherMixture\<close> and
  \<open>OtherTuning\<close> stand for any further enumerator, which the application sends to its
  \<^verbatim>\<open>default\<close> and \<^verbatim>\<open>else\<close> branches. \<open>None_Tuning\<close> is \<^verbatim>\<open>ErrorModelTuningType::None\<close>.
\<close>

datatype ErrorModelType = Gaussian | DCS | cDCE | GMM | OtherErrorModel

datatype ErrorModelMixtureType = MaxMix | SumMix | OtherMixture

datatype ErrorModelTuningType = None_Tuning | EM | VBI | OtherTuning

datatype StateType = Point3 | Angle | ClockError | ClockDrift

datatype FactorType = Pseudorange3_ECEF | Odom4_ECEF | ConstDrift1

datatype SensorType = Pseudorange3 | Odom3

text \<open>
  The state names are macros of \<^verbatim>\<open>IV19_GNSS.h\<close>, taken here as four different names.
\<close>

datatype StateName = POSITION_STATE | CLOCK_ERROR_STATE | ORIENTATION_STATE | CLOCK_DRIFT_STATE

text \<open>
  The fields of \<^verbatim>\<open>FactorGraphConfig\<close> that the application reads and writes;
  \<open>Type\<close>, \<open>MixtureType\<close> and \<open>TuningType\<close> are those of \<^verbatim>\<open>Config.GNSS.ErrorModel\<close>.
\<close>

record FactorGraphConfig =
  InputFile :: string
  OutputFile :: string
  Type :: ErrorModelType
  MixtureType :: ErrorModelMixtureType
  TuningType :: ErrorModelTuningType

text \<open>
  Modelled from the spec: \<^verbatim>\<open>GaussianComponent<1>\<close> and \<^verbatim>\<open>GaussianMixture<1>\<close> are declared in
  headers that are not among the source files. A component is a mean, a standard deviation
  and a weight; a mixture is the ordered list of its components, \<^verbatim>\<open>addComponent\<close> appends
  one, \<^verbatim>\<open>removeLastComponent\<close> removes the last one, and \<^verbatim>\<open>sortComponentsByWeight\<close> orders
  them by falling weight, so that the component of lowest weight is the last one.
  \<^verbatim>\<open>setParamsStdDev\<close> takes the standard deviation, the mean and the weight, in this order.
  \<^verbatim>\<open>double\<close> is modelled by the real numbers.
\<close>

record GaussianComponent =
  Mean :: real
  StdDev :: real
  Weight :: real

type_synonym GaussianMixture = "GaussianComponent list"

definition setParamsStdDev :: "real \<Rightarrow> real \<Rightarrow> real \<Rightarrow> GaussianComponent" where
  "setParamsStdDev StdDev' Mean' Weight' = \<lparr>Mean = Mean', StdDev = StdDev', Weight = Weight'\<rparr>"

definition getNumberOfComponents :: "GaussianMixture \<Rightarrow> int" where
  "getNumberOfComponents G = int (length G)"

definition addComponent :: "GaussianMixture \<Rightarrow> GaussianComponent \<Rightarrow> GaussianMixture" where
  "addComponent G Component = G @ [Component]"

definition removeLastComponent :: "GaussianMixture \<Rightarrow> GaussianMixture" where
  "removeLastComponent G = butlast G"

definition sortComponentsByWeight :: "GaussianMixture \<Rightarrow> GaussianMixture" where
  "sortComponentsByWeight G = sort_key (\<lambda>c. - Weight c) G"

record EstimationConfig =
  EstimationAlgorithm :: ErrorModelTuningType
  RemoveSmallComponents :: bool
  MergeSimiliarComponents :: bool
  PriorWishartDOF :: "real option"

subsection \<open>Calls into the library\<close>

text \<open>
  The factor graph, the solver and the file access are not among the source files. What
  the application does to them is recorded as the list of its calls, oldest first.
  \<open>'m\<close> is the type of a measurement (\<^verbatim>\<open>SensorData\<close>).

  A noise model is written as the expression that builds it from a measurement.
  \<open>Graph_setMean_from_SimpleGraph name t\<close> is the statement of \<^verbatim>\<open>InitGraph\<close> that sets the
  mean of the state \<open>name\<close> at \<open>t\<close> of the main graph to the mean of that state in the
  throwaway graph, and \<open>Result_addElement name t\<close> is the statement of \<^verbatim>\<open>main\<close> that adds
  the state \<open>name\<close> at \<open>t\<close> of the main graph to \<^verbatim>\<open>Result\<close>. The solver options are
  left out of \<open>Graph_solve\<close>.
\<close>

datatype GraphName = SimpleGraph | Graph

datatype 'm Noise =
    GaussianDiagonal_StdDev 'm
  | GaussianDiagonal_StdDev_DCSLoss 'm real
  | GaussianDiagonal_Ones_cDCELoss 'm
  | MaxMix1 GaussianMixture
  | SumMix1 GaussianMixture
  | GaussianDiagonal_Odom4DOF 'm
  | GaussianDiagonal_CCED real real

datatype 'm Call =
    Graph_addState GraphName StateName StateType real
  | Graph_addFactor GraphName FactorType "(StateName \<times> real) list" "'m option" "'m Noise"
  | Graph_solve GraphName
  | Graph_setMean_from_SimpleGraph StateName real
  | Graph_computeUnweightedError FactorType
  | Graph_setNewErrorModel FactorType "'m Noise"
  | Graph_removeAllStatesOutsideWindow real real
  | Graph_printReport
  | Result_addElement StateName real
  | WriteDataToFile string StateName

text \<open>
  What the application takes from outside the source files: the macros \<^verbatim>\<open>GMM_N\<close>,
  \<^verbatim>\<open>VBI_N_MAX\<close> and \<^verbatim>\<open>VBI_NU\<close> of \<^verbatim>\<open>IV19_GNSS.h\<close>; the methods \<^verbatim>\<open>initSpread\<close>,
  \<^verbatim>\<open>estimate\<close> and \<^verbatim>\<open>removeOffset\<close> of the mixture; the residuals that
  \<^verbatim>\<open>computeUnweightedError\<close> yields for the main graph after the calls made so far; the
  records that \<^verbatim>\<open>ReadDataFromFile\<close> adds to the data set, in file order; and the
  default-constructed measurement.
\<close>

record 'm Externals =
  GMM_N :: int
  VBI_N_MAX :: int
  VBI_NU :: real
  initSpread :: "int \<Rightarrow> real \<Rightarrow> GaussianMixture"
  estimate :: "real list \<Rightarrow> EstimationConfig \<Rightarrow> GaussianMixture \<Rightarrow> GaussianMixture"
  removeOffset :: "GaussianMixture \<Rightarrow> GaussianMixture"
  residuals :: "'m Call list \<Rightarrow> real list"
  ReadDataFromFile :: "string \<Rightarrow> (SensorType \<times> real \<times> 'm) list"
  SensorData_default :: 'm

text \<open>
  The state of the run: the calls made so far and the function-local statics, which are
  the mixture \<^verbatim>\<open>GMM\<close> and the two noise models of \<^verbatim>\<open>AddPseudorangeMeasurements\<close> (built on
  first use) and the mixture \<^verbatim>\<open>GMMAdaptive\<close> of \<^verbatim>\<open>TuneErrorModel\<close>.
\<close>

record 'm Program =
  Calls :: "'m Call list"
  GMM_static :: GaussianMixture
  NoisePseudorangeMaxMix :: "GaussianMixture option"
  NoisePseudorangeSumMix :: "GaussianMixture option"
  GMMAdaptive :: GaussianMixture

definition Program_start :: "'m Program" where
  "Program_start =
     \<lparr>Calls = [], GMM_static = [], NoisePseudorangeMaxMix = None,
      NoisePseudorangeSumMix = None, GMMAdaptive = []\<rparr>"

definition call :: "'m Call \<Rightarrow> 'm Program \<Rightarrow> 'm Program" where
  "call c P = P\<lparr>Calls := Calls P @ [c]\<rparr>"

subsection \<open>AddPseudorangeMeasurements\<close>

definition ListPseudorange :: "real \<Rightarrow> (StateName \<times> real) list" where
  "ListPseudorange Timestamp = [(POSITION_STATE, Timestamp), (CLOCK_ERROR_STATE, Timestamp)]"

text \<open>Lines 124 to 135: the static mixture is filled when it has no component.\<close>

definition fill_GMM :: "'m Externals \<Rightarrow> FactorGraphConfig \<Rightarrow> 'm Program \<Rightarrow> 'm Program" where
  "fill_GMM X Config P =
     (if getNumberOfComponents (GMM_static P) = 0
      then P\<lparr>GMM_static :=
               (if TuningType Config = VBI then initSpread X 2 10
                else initSpread X (GMM_N X) 10)\<rparr>
      else P)"

text \<open>The body of the loop over the satellites, for one \<^verbatim>\<open>SatCounter\<close>.\<close>

definition AddPseudorange_body ::
  "'m Externals \<Rightarrow> GraphName \<Rightarrow> (SensorType, 'm) DataSet \<Rightarrow> FactorGraphConfig \<Rightarrow> real \<Rightarrow> int
     \<Rightarrow> 'm Program \<Rightarrow> error + 'm Program" where
  "AddPseudorange_body X G Measurements Config Timestamp SatCounter P =
     (case getElement Measurements Pseudorange3 Timestamp SatCounter of
        Inl e \<Rightarrow> Inl e
      | Inr r \<Rightarrow>
         (let Pseudorange = deref Measurements Pseudorange3 r
          in case Type Config of
               Gaussian \<Rightarrow>
                 Inr (call (Graph_addFactor G Pseudorange3_ECEF (ListPseudorange Timestamp)
                              (Some Pseudorange) (GaussianDiagonal_StdDev Pseudorange)) P)
             | DCS \<Rightarrow>
                 Inr (call (Graph_addFactor G Pseudorange3_ECEF (ListPseudorange Timestamp)
                              (Some Pseudorange) (GaussianDiagonal_StdDev_DCSLoss Pseudorange 1)) P)
             | cDCE \<Rightarrow>
                 Inr (call (Graph_addFactor G Pseudorange3_ECEF (ListPseudorange Timestamp)
                              (Some Pseudorange) (GaussianDiagonal_Ones_cDCELoss Pseudorange)) P)
             | GMM \<Rightarrow>
                 (let P1 = fill_GMM X Config P
                  in if MixtureType Config = MaxMix then
                       (let M = (case NoisePseudorangeMaxMix P1 of
                                   None \<Rightarrow> GMM_static P1 | Some M' \<Rightarrow> M')
                        in Inr (call (Graph_addFactor G Pseudorange3_ECEF (ListPseudorange Timestamp)
                                        (Some Pseudorange) (MaxMix1 M))
                                  (P1\<lparr>NoisePseudorangeMaxMix := Some M\<rparr>)))
                     else if MixtureType Config = SumMix then
                       (let M = (case NoisePseudorangeSumMix P1 of
                                   None \<Rightarrow> GMM_static P1 | Some M' \<Rightarrow> M')
                        in Inr (call (Graph_addFactor G Pseudorange3_ECEF (ListPseudorange Timestamp)
                                        (Some Pseudorange) (SumMix1 M))
                                  (P1\<lparr>NoisePseudorangeSumMix := Some M\<rparr>)))
                     else Inr P1)
             | OtherErrorModel \<Rightarrow> Inr P))"

fun AddPseudorange_loop ::
  "'m Externals \<Rightarrow> GraphName \<Rightarrow> (SensorType, 'm) DataSet \<Rightarrow> FactorGraphConfig \<Rightarrow> real
     \<Rightarrow> nat list \<Rightarrow> 'm Program \<Rightarrow> error + 'm Program" where
  "AddPseudorange_loop X G Measurements Config Timestamp [] P = Inr P"
| "AddPseudorange_loop X G Measurements Config Timestamp (SatCounter # rest) P =
     (case AddPseudorange_body X G Measurements Config Timestamp (int SatCounter) P of
        Inl e \<Rightarrow> Inl e
      | Inr P' \<Rightarrow> AddPseudorange_loop X G Measurements Config Timestamp rest P')"

definition AddPseudorangeMeasurements ::
  "'m Externals \<Rightarrow> GraphName \<Rightarrow> (SensorType, 'm) DataSet \<Rightarrow> FactorGraphConfig \<Rightarrow> real
     \<Rightarrow> 'm Program \<Rightarrow> error + 'm Program" where
  "AddPseudorangeMeasurements X G Measurements Config Timestamp P =
     (let SatNumber = countElement Measurements Pseudorange3 Timestamp
      in AddPseudorange_loop X G Measurements Config Timestamp [0..<nat SatNumber] P)"

subsection \<open>InitGraph\<close>

definition InitGraph ::
  "'m Externals \<Rightarrow> (SensorType, 'm) DataSet \<Rightarrow> FactorGraphConfig \<Rightarrow> real
     \<Rightarrow> 'm Program \<Rightarrow> error + 'm Program" where
  "InitGraph X Measurements Config TimestampFirst P =
     (let SimpleConfig = Config\<lparr>Type := Gaussian\<rparr>;
          P1 = call (Graph_addState SimpleGraph POSITION_STATE Point3 TimestampFirst) P;
          P2 = call (Graph_addState SimpleGraph CLOCK_ERROR_STATE ClockError TimestampFirst) P1
      in case AddPseudorangeMeasurements X SimpleGraph Measurements SimpleConfig TimestampFirst P2 of
           Inl e \<Rightarrow> Inl e
         | Inr P3 \<Rightarrow>
            (let P4 = call (Graph_solve SimpleGraph) P3;
                 P5 = call (Graph_addState Graph POSITION_STATE Point3 TimestampFirst) P4;
                 P6 = call (Graph_addState Graph CLOCK_ERROR_STATE ClockError TimestampFirst) P5;
                 P7 = call (Graph_addState Graph ORIENTATION_STATE Angle TimestampFirst) P6;
                 P8 = call (Graph_addState Graph CLOCK_DRIFT_STATE ClockDrift TimestampFirst) P7;
                 P9 = call (Graph_setMean_from_SimpleGraph POSITION_STATE TimestampFirst) P8;
                 P10 = call (Graph_setMean_from_SimpleGraph CLOCK_ERROR_STATE TimestampFirst) P9
             in AddPseudorangeMeasurements X Graph Measurements Config TimestampFirst P10))"

subsection \<open>TuneErrorModel\<close>

text \<open>The statistics of lines 222 to 232, over the real numbers.\<close>

definition sample_mean :: "real list \<Rightarrow> real" where
  "sample_mean v = sum_list v / real (length v)"

definition sample_stdev :: "real list \<Rightarrow> real" where
  "sample_stdev v =
     (let mean = sample_mean v;
          diff = map (\<lambda>x. x - mean) v;
          sq_sum = sum_list (map2 (\<lambda>a b. a * b) diff diff)
      in sqrt (sq_sum / real (length v)))"

text \<open>
  Lines 216 to 246: what the branch for \<^verbatim>\<open>VBI\<close> does to \<^verbatim>\<open>GMMAdaptive\<close> before the
  estimation. \<open>VBI_before_append\<close> is the mixture at the moment of \<^verbatim>\<open>addComponent\<close>.
\<close>

definition VBI_before_append :: "'m Externals \<Rightarrow> GaussianMixture \<Rightarrow> GaussianMixture" where
  "VBI_before_append X GMMAdaptive0 =
     (let G1 = (if getNumberOfComponents GMMAdaptive0 = 0 then initSpread X 1 10
                else GMMAdaptive0)
      in if getNumberOfComponents G1 \<ge> VBI_N_MAX X
         then removeLastComponent (sortComponentsByWeight G1)
         else G1)"

definition VBI_append :: "'m Externals \<Rightarrow> GaussianMixture \<Rightarrow> real list \<Rightarrow> GaussianMixture" where
  "VBI_append X GMMAdaptive0 ErrorData =
     (let stdev = sample_stdev ErrorData;
          G2 = VBI_before_append X GMMAdaptive0;
          Component = setParamsStdDev stdev 0 (1 / real_of_int (getNumberOfComponents G2))
      in addComponent G2 Component)"

text \<open>
  Lines 197 to 207 and 259 to 269: the fitted mixture becomes the error model of all
  pseudorange factors, as a sum mixture or as a max mixture.
\<close>

definition apply_error_model :: "FactorGraphConfig \<Rightarrow> GaussianMixture \<Rightarrow> 'm Program \<Rightarrow> 'm Program" where
  "apply_error_model Config G P =
     (if MixtureType Config = SumMix
      then call (Graph_setNewErrorModel Pseudorange3_ECEF (SumMix1 G)) P
      else if MixtureType Config = MaxMix
      then call (Graph_setNewErrorModel Pseudorange3_ECEF (MaxMix1 G)) P
      else P)"

definition TuneErrorModel :: "'m Externals \<Rightarrow> FactorGraphConfig \<Rightarrow> 'm Program \<Rightarrow> 'm Program" where
  "TuneErrorModel X Config P =
     (if TuningType Config \<noteq> None_Tuning then
        (let ErrorData = residuals X (Calls P);
             P1 = call (Graph_computeUnweightedError Pseudorange3_ECEF) P
         in if TuningType Config = EM then
              (let G0 = [];
                   G1 = (if getNumberOfComponents G0 = 0 then initSpread X (GMM_N X) 10 else G0);
                   G2 = estimate X ErrorData
                          \<lparr>EstimationAlgorithm = EM, RemoveSmallComponents = False,
                           MergeSimiliarComponents = False, PriorWishartDOF = None\<rparr> G1;
                   G3 = removeOffset X G2
               in apply_error_model Config G3 P1)
            else if TuningType Config = VBI then
              (let G4 = VBI_append X (GMMAdaptive P1) ErrorData;
                   G5 = estimate X ErrorData
                          \<lparr>EstimationAlgorithm = VBI, RemoveSmallComponents = True,
                           MergeSimiliarComponents = False, PriorWishartDOF = Some (VBI_NU X)\<rparr> G4;
                   G6 = removeOffset X G5
               in apply_error_model Config G6 (P1\<lparr>GMMAdaptive := G6\<rparr>))
            else P1)
      else P)"

subsection \<open>ParseErrorModel\<close>

definition ParseErrorModel :: "string \<Rightarrow> FactorGraphConfig \<Rightarrow> bool \<times> FactorGraphConfig" where
  "ParseErrorModel ErrorModel Config =
     (if ErrorModel = ''gauss'' then
        (True, Config\<lparr>Type := Gaussian, TuningType := None_Tuning\<rparr>)
      else if ErrorModel = ''dcs'' then
        (True, Config\<lparr>Type := DCS, TuningType := None_Tuning\<rparr>)
      else if ErrorModel = ''cdce'' then
        (True, Config\<lparr>Type := cDCE, TuningType := None_Tuning\<rparr>)
      else if ErrorModel = ''sm'' then
        (True, Config\<lparr>Type := GMM, MixtureType := SumMix, TuningType := None_Tuning\<rparr>)
      else if ErrorModel = ''mm'' then
        (True, Config\<lparr>Type := GMM, MixtureType := MaxMix, TuningType := None_Tuning\<rparr>)
      else if ErrorModel = ''stsm'' then
        (True, Config\<lparr>Type := GMM, MixtureType := SumMix, TuningType := EM\<rparr>)
      else if ErrorModel = ''stmm'' then
        (True, Config\<lparr>Type := GMM, MixtureType := MaxMix, TuningType := EM\<rparr>)
      else if ErrorModel = ''stsm_vbi'' then
        (True, Config\<lparr>Type := GMM, MixtureType := SumMix, TuningType := VBI\<rparr>)
      else if ErrorModel = ''stmm_vbi'' then
        (True, Config\<lparr>Type := GMM, MixtureType := MaxMix, TuningType := VBI\<rparr>)
      else (False, Config))"

subsection \<open>main\<close>

text \<open>
  Lines 380 to 388: the first timestamp. \<^verbatim>\<open>Timestamp\<close> equals \<^verbatim>\<open>TimestampFirst\<close> there.
\<close>

definition main_first_epoch ::
  "'m Externals \<Rightarrow> (SensorType, 'm) DataSet \<Rightarrow> FactorGraphConfig \<Rightarrow> real
     \<Rightarrow> 'm Program \<Rightarrow> error + 'm Program" where
  "main_first_epoch X InputData Config TimestampFirst P =
     (case InitGraph X InputData Config TimestampFirst P of
        Inl e \<Rightarrow> Inl e
      | Inr P1 \<Rightarrow>
         (let P2 = call (Graph_solve Graph) P1;
              P3 = TuneErrorModel X Config P2;
              P4 = call (Graph_solve Graph) P3
          in Inr (call (Result_addElement POSITION_STATE TimestampFirst) P4)))"

text \<open>Lines 397 to 407: the noise of the clock drift model.\<close>

definition StdCCED :: "FactorGraphConfig \<Rightarrow> real \<times> real" where
  "StdCCED Config =
     (if InputFile Config = ''Chemnitz_Input.txt'' then (1 / 10, 9 / 1000) else (5 / 100, 1 / 100))"

text \<open>
  Lines 414 to 454: the body of the loop over the timestamps. \<open>Odom\<close> is the odometry
  measurement that was read at the first timestamp; its standard deviation makes
  \<^verbatim>\<open>NoiseOdom4DOF\<close>. The counter \<^verbatim>\<open>nTimestamp\<close> is written and never read.
\<close>

definition main_loop_body ::
  "'m Externals \<Rightarrow> (SensorType, 'm) DataSet \<Rightarrow> FactorGraphConfig \<Rightarrow> 'm \<Rightarrow> real \<Rightarrow> real
     \<Rightarrow> 'm Program \<Rightarrow> error + 'm Program" where
  "main_loop_body X InputData Config Odom Timestamp TimestampOld P =
     (let P1 = call (Graph_addState Graph POSITION_STATE Point3 Timestamp) P;
          P2 = call (Graph_addState Graph CLOCK_ERROR_STATE ClockError Timestamp) P1;
          P3 = call (Graph_addState Graph ORIENTATION_STATE Angle Timestamp) P2;
          P4 = call (Graph_addState Graph CLOCK_DRIFT_STATE ClockDrift Timestamp) P3;
          MotionList = [(POSITION_STATE, TimestampOld), (ORIENTATION_STATE, TimestampOld),
                        (POSITION_STATE, Timestamp), (ORIENTATION_STATE, Timestamp)]
      in case getElement InputData Odom3 Timestamp 0 of
           Inl e \<Rightarrow> Inl e
         | Inr r \<Rightarrow>
            (let P5 = call (Graph_addFactor Graph Odom4_ECEF MotionList
                              (Some (deref InputData Odom3 r)) (GaussianDiagonal_Odom4DOF Odom)) P4;
                 ClockList = [(CLOCK_ERROR_STATE, TimestampOld), (CLOCK_DRIFT_STATE, TimestampOld),
                              (CLOCK_ERROR_STATE, Timestamp), (CLOCK_DRIFT_STATE, Timestamp)];
                 P6 = call (Graph_addFactor Graph ConstDrift1 ClockList None
                              (GaussianDiagonal_CCED (fst (StdCCED Config)) (snd (StdCCED Config)))) P5
             in case AddPseudorangeMeasurements X Graph InputData Config Timestamp P6 of
                  Inl e \<Rightarrow> Inl e
                | Inr P7 \<Rightarrow>
                   (let P8 = TuneErrorModel X Config P7;
                        P9 = call (Graph_solve Graph) P8;
                        P10 = call (Result_addElement POSITION_STATE Timestamp) P9
                    in Inr (call (Graph_removeAllStatesOutsideWindow 60 Timestamp) P10))))"

text \<open>
  Line 412: \<^verbatim>\<open>while(InputData.getTimeNext(Pseudorange3, Timestamp, Timestamp))\<close>. The loop
  ends when \<^verbatim>\<open>getTimeNext\<close> returns \<^verbatim>\<open>false\<close>.
\<close>

function main_loop ::
  "'m Externals \<Rightarrow> (SensorType, 'm) DataSet \<Rightarrow> FactorGraphConfig \<Rightarrow> 'm \<Rightarrow> real \<Rightarrow> real
     \<Rightarrow> 'm Program \<Rightarrow> error + 'm Program" where
  "main_loop X InputData Config Odom Timestamp TimestampOld P =
     (case getTimeNext InputData Pseudorange3 Timestamp of
        Inl e \<Rightarrow> (if e = NotFound then Inr P else Inl e)
      | Inr Timestamp' \<Rightarrow>
         (case main_loop_body X InputData Config Odom Timestamp' TimestampOld P of
            Inl e \<Rightarrow> Inl e
          | Inr P' \<Rightarrow> main_loop X InputData Config Odom Timestamp' Timestamp' P'))"
  by pat_completeness auto
termination
proof (relation "measure (\<lambda>(X, InputData, Config, Odom, Timestamp, TimestampOld, P).
    length (filter (\<lambda>p. Timestamp < fst p)
      (case DataStreams InputData Pseudorange3 of None \<Rightarrow> [] | Some s \<Rightarrow> s)))")
  show "wf (measure (\<lambda>(X, InputData, Config, Odom, Timestamp, TimestampOld, P).
    length (filter (\<lambda>p. Timestamp < fst p)
      (case DataStreams InputData Pseudorange3 of None \<Rightarrow> [] | Some s \<Rightarrow> s))))"
    by simp
next
  fix X :: "'m Externals" and InputData :: "(SensorType, 'm) DataSet"
    and Config :: FactorGraphConfig and Odom :: 'm and Timestamp TimestampOld Timestamp' :: real
    and P P' :: "'m Program"
  assume next_time: "getTimeNext InputData Pseudorange3 Timestamp = Inr Timestamp'"
  then obtain s where s: "DataStreams InputData Pseudorange3 = Some s"
    and ub: "upper_bound s Timestamp < length s"
    and t': "Timestamp' = fst (s ! upper_bound s Timestamp)"
    by (auto simp: getTimeNext_def at_ID_def key_at_def mm_end_def Let_def
        split: if_splits option.splits)
  have "\<not> fst (s ! upper_bound s Timestamp) \<le> Timestamp"
    using ub unfolding upper_bound_def by (rule nth_length_takeWhile)
  then have gt: "Timestamp < Timestamp'" using t' by simp
  have mem: "s ! upper_bound s Timestamp \<in> set (filter (\<lambda>p. Timestamp < fst p) s)"
    using ub gt t' by simp
  have "filter (\<lambda>p. Timestamp' < fst p) s
          = filter (\<lambda>p. Timestamp' < fst p) (filter (\<lambda>p. Timestamp < fst p) s)"
    using gt by (auto intro!: filter_cong)
  moreover have "length (filter (\<lambda>p. Timestamp' < fst p) (filter (\<lambda>p. Timestamp < fst p) s))
          < length (filter (\<lambda>p. Timestamp < fst p) s)"
    using mem t' by (intro length_filter_less [of "s ! upper_bound s Timestamp"]) simp_all
  ultimately show "((X, InputData, Config, Odom, Timestamp', Timestamp', P'),
            (X, InputData, Config, Odom, Timestamp, TimestampOld, P))
          \<in> measure (\<lambda>(X, InputData, Config, Odom, Timestamp, TimestampOld, P).
              length (filter (\<lambda>p. Timestamp < fst p)
                (case DataStreams InputData Pseudorange3 of None \<Rightarrow> [] | Some s \<Rightarrow> s)))"
    using s by simp
qed

text \<open>
  \<^verbatim>\<open>main\<close>. \<open>Arguments\<close> is \<^verbatim>\<open>argv\<close> without the program name, \<open>Config0\<close> the
  default-constructed configuration. \<^verbatim>\<open>Arguments.at\<close> throws when an argument is missing.
  The result is the exit code and the state of the run. \<^verbatim>\<open>TimestampFirst\<close> starts as
  0.0 and keeps that value when there is no pseudorange; \<^verbatim>\<open>TimestampLast\<close> is never read.
\<close>

definition main ::
  "'m Externals \<Rightarrow> FactorGraphConfig \<Rightarrow> string list \<Rightarrow> error + int \<times> 'm Program" where
  "main X Config0 Arguments =
     (if length Arguments < 4 then Inl out_of_range
      else
        (let Config1 = Config0\<lparr>InputFile := Arguments ! 0, OutputFile := Arguments ! 1\<rparr>
         in case ParseErrorModel (Arguments ! 3) Config1 of
              (False, _) \<Rightarrow> Inr (1, Program_start)
            | (True, Config) \<Rightarrow>
               (let InputData =
                      addElements \<lparr>DataStreams = Map.empty, NullObject = SensorData_default X\<rparr>
                        (ReadDataFromFile X (InputFile Config))
                in case (case getTimeFirst InputData Pseudorange3 of
                           Inl e \<Rightarrow> (if e = NotFound then Inr 0 else Inl e)
                         | Inr t \<Rightarrow> Inr t) of
                     Inl e \<Rightarrow> Inl e
                   | Inr TimestampFirst \<Rightarrow>
                  (case (case getTimeLast InputData Pseudorange3 of
                           Inl e \<Rightarrow> (if e = NotFound then Inr None else Inl e)
                         | Inr t \<Rightarrow> Inr (Some t)) of
                     Inl e \<Rightarrow> Inl e
                   | Inr TimestampLast \<Rightarrow>
                  (case main_first_epoch X InputData Config TimestampFirst Program_start of
                     Inl e \<Rightarrow> Inl e
                   | Inr P1 \<Rightarrow>
                  (case getElement InputData Odom3 TimestampFirst 0 of
                     Inl e \<Rightarrow> Inl e
                   | Inr r \<Rightarrow>
                  (case main_loop X InputData Config (deref InputData Odom3 r)
                          TimestampFirst TimestampFirst P1 of
                     Inl e \<Rightarrow> Inl e
                   | Inr P2 \<Rightarrow>
                       Inr (0, call (WriteDataToFile (OutputFile Config) POSITION_STATE)
                                 (call Graph_printReport P2)))))))))"

subsection \<open>Example data for the application\<close>

text \<open>
  A library at hand for examples: measurements are numbers, a file holds two pseudoranges
  and one odometry record at time 0 and one of each at time 1, the residuals are 1 and 3,
  \<^verbatim>\<open>initSpread\<close> gives equal components, \<^verbatim>\<open>estimate\<close> and \<^verbatim>\<open>removeOffset\<close> leave the
  mixture as it is, and the cap \<^verbatim>\<open>VBI_N_MAX\<close> is 2.
\<close>

definition example_X :: "nat Externals" where
  "example_X =
     \<lparr>GMM_N = 2, VBI_N_MAX = 2, VBI_NU = 2,
      initSpread = (\<lambda>K r. replicate (nat K) \<lparr>Mean = 0, StdDev = r, Weight = 1 / real_of_int K\<rparr>),
      estimate = (\<lambda>ErrorData C G. G),
      removeOffset = (\<lambda>G. G),
      residuals = (\<lambda>calls. [1, 3]),
      ReadDataFromFile = (\<lambda>file. [(Pseudorange3, 0, 7), (Pseudorange3, 0, 8), (Odom3, 0, 5),
                                  (Pseudorange3, 1, 9), (Odom3, 1, 6)]),
      SensorData_default = 0\<rparr>"

definition example_Config :: FactorGraphConfig where
  "example_Config =
     \<lparr>InputFile = [], OutputFile = [], Type = Gaussian, MixtureType = OtherMixture,
      TuningType = None_Tuning\<rparr>"

definition example_InputData :: "(SensorType, nat) DataSet" where
  "example_InputData =
     addElements \<lparr>DataStreams = Map.empty, NullObject = 0\<rparr>
       [(Pseudorange3, 0, 7), (Pseudorange3, 0, 8), (Odom3, 0, 5)]"

definition example_VBI_Config :: FactorGraphConfig where
  "example_VBI_Config = snd (ParseErrorModel ''stmm_vbi'' example_Config)"

definition example_mixture :: GaussianMixture where
  "example_mixture =
     [\<lparr>Mean = 5, StdDev = 10, Weight = 3 / 10\<rparr>, \<lparr>Mean = 0, StdDev = 10, Weight = 7 / 10\<rparr>]"

subsection \<open>Notions for the statements about the application\<close>

text \<open>No key of the data set has an empty stream: \<^verbatim>\<open>removeElement\<close> erases such keys.\<close>

definition no_empty_stream :: "('k, 'o) DataSet \<Rightarrow> bool" where
  "no_empty_stream D = (\<forall>ID s. DataStreams D ID = Some s \<longrightarrow> s \<noteq> [])"

text \<open>The calls of a run that came to its end, and no calls for one that did not.\<close>

definition calls_of :: "error + 'm Program \<Rightarrow> 'm Call list" where
  "calls_of r = (case r of Inl e \<Rightarrow> [] | Inr P \<Rightarrow> Calls P)"

text \<open>
  The mixture that \<^verbatim>\<open>AddPseudorangeMeasurements\<close> puts into its static \<^verbatim>\<open>GMM\<close> on first
  use, and the noise model that it gives to the factor of a measurement \<open>m\<close> when the
  statics are those of the start of the run or were set by earlier calls under the same
  configuration. There is none where the source only prints an error.
\<close>

definition GMM_init :: "'m Externals \<Rightarrow> FactorGraphConfig \<Rightarrow> GaussianMixture" where
  "GMM_init X Config =
     (if TuningType Config = VBI then initSpread X 2 10 else initSpread X (GMM_N X) 10)"

definition pseudorange_noise :: "'m Externals \<Rightarrow> FactorGraphConfig \<Rightarrow> 'm \<Rightarrow> 'm Noise option" where
  "pseudorange_noise X Config m =
     (case Type Config of
        Gaussian \<Rightarrow> Some (GaussianDiagonal_StdDev m)
      | DCS \<Rightarrow> Some (GaussianDiagonal_StdDev_DCSLoss m 1)
      | cDCE \<Rightarrow> Some (GaussianDiagonal_Ones_cDCELoss m)
      | GMM \<Rightarrow>
          (if MixtureType Config = MaxMix then Some (MaxMix1 (GMM_init X Config))
           else if MixtureType Config = SumMix then Some (SumMix1 (GMM_init X Config))
           else None)
      | OtherErrorModel \<Rightarrow> None)"

text \<open>One pseudorange factor for every measurement of the list, in its order.\<close>

definition pseudorange_factors ::
  "'m Externals \<Rightarrow> GraphName \<Rightarrow> FactorGraphConfig \<Rightarrow> real \<Rightarrow> 'm list \<Rightarrow> 'm Call list" where
  "pseudorange_factors X G Config Timestamp ms =
     concat (map (\<lambda>m. case pseudorange_noise X Config m of
                         None \<Rightarrow> []
                       | Some n \<Rightarrow> [Graph_addFactor G Pseudorange3_ECEF (ListPseudorange Timestamp)
                                      (Some m) n]) ms)"

definition statics_from :: "'m Externals \<Rightarrow> FactorGraphConfig \<Rightarrow> 'm Program \<Rightarrow> bool" where
  "statics_from X Config P =
     ((GMM_static P = [] \<or> GMM_static P = GMM_init X Config) \<and>
      (NoisePseudorangeMaxMix P = None \<or> NoisePseudorangeMaxMix P = Some (GMM_init X Config)) \<and>
      (NoisePseudorangeSumMix P = None \<or> NoisePseudorangeSumMix P = Some (GMM_init X Config)))"

text \<open>
  The calls that \<^verbatim>\<open>TuneErrorModel\<close> makes, written out: after the calls \<open>before\<close> and
  with the adaptive mixture \<open>GMMAdaptive0\<close>. There is none for the tuning type
  \<^verbatim>\<open>None\<close>. For every other tuning type the residuals are computed; for \<^verbatim>\<open>EM\<close> and
  \<^verbatim>\<open>VBI\<close> a mixture is fitted to them, its offset is removed, and it replaces the error
  model of the pseudorange factors when the mixture type is a sum or a max mixture.
\<close>

definition tuning_calls ::
  "'m Externals \<Rightarrow> FactorGraphConfig \<Rightarrow> GaussianMixture \<Rightarrow> 'm Call list \<Rightarrow> 'm Call list" where
  "tuning_calls X Config GMMAdaptive0 before =
     (if TuningType Config = None_Tuning then []
      else
        Graph_computeUnweightedError Pseudorange3_ECEF #
        (let ErrorData = residuals X before;
             fitted =
               (if TuningType Config = EM then
                  Some (removeOffset X
                          (estimate X ErrorData
                             \<lparr>EstimationAlgorithm = EM, RemoveSmallComponents = False,
                              MergeSimiliarComponents = False, PriorWishartDOF = None\<rparr>
                             (initSpread X (GMM_N X) 10)))
                else if TuningType Config = VBI then
                  Some (removeOffset X
                          (estimate X ErrorData
                             \<lparr>EstimationAlgorithm = VBI, RemoveSmallComponents = True,
                              MergeSimiliarComponents = False,
                              PriorWishartDOF = Some (VBI_NU X)\<rparr>
                             (VBI_append X GMMAdaptive0 ErrorData)))
                else None)
         in case fitted of
              None \<Rightarrow> []
            | Some G \<Rightarrow>
                if MixtureType Config = SumMix
                then [Graph_setNewErrorModel Pseudorange3_ECEF (SumMix1 G)]
                else if MixtureType Config = MaxMix
                then [Graph_setNewErrorModel Pseudorange3_ECEF (MaxMix1 G)]
                else []))"

text \<open>The tokens of the error model on the command line.\<close>

definition ERROR_MODEL_tokens :: "string list" where
  "ERROR_MODEL_tokens =
     [''gauss'', ''dcs'', ''cdce'', ''sm'', ''mm'', ''stsm'', ''stmm'', ''stsm_vbi'', ''stmm_vbi'']"

section \<open>Properties of the streams\<close>

lemma takeWhile_all_none:
  "\<forall>p\<in>set A. P p \<Longrightarrow> \<forall>p\<in>set R. \<not> P p \<Longrightarrow> takeWhile P (A @ R) = A"
  by (induction A) (auto simp: takeWhile_eq_Nil_iff)

lemma lower_bound_parts:
  assumes "\<forall>p\<in>set A. fst p < t" "\<forall>p\<in>set B. fst p = t" "\<forall>p\<in>set C. t < fst p"
  shows "lower_bound (A @ B @ C) t = length A"
proof -
  have "\<forall>p\<in>set (B @ C). \<not> fst p < t" using assms by auto
  then have "takeWhile (\<lambda>p. fst p < t) (A @ (B @ C)) = A"
    using assms(1) by (rule takeWhile_all_none[rotated])
  then show ?thesis by (simp add: lower_bound_def)
qed

lemma upper_bound_parts:
  assumes "\<forall>p\<in>set A. fst p < t" "\<forall>p\<in>set B. fst p = t" "\<forall>p\<in>set C. t < fst p"
  shows "upper_bound (A @ B @ C) t = length A + length B"
proof -
  have "\<forall>p\<in>set (A @ B). fst p \<le> t" using assms by auto
  moreover have "\<forall>p\<in>set C. \<not> fst p \<le> t" using assms by auto
  ultimately have "takeWhile (\<lambda>p. fst p \<le> t) ((A @ B) @ C) = A @ B"
    by (rule takeWhile_all_none)
  then show ?thesis by (simp add: upper_bound_def)
qed

lemma sorted_parts:
  "sorted (map fst s) \<Longrightarrow>
   s = filter (\<lambda>p. fst p < t) s @ filter (\<lambda>p. fst p = t) s @ filter (\<lambda>p. t < fst p) s"
proof (induction s)
  case Nil
  then show ?case by simp
next
  case (Cons a s)
  then have IH: "s = filter (\<lambda>p. fst p < t) s @ filter (\<lambda>p. fst p = t) s @ filter (\<lambda>p. t < fst p) s"
    and le: "\<forall>p\<in>set s. fst a \<le> fst p" by auto
  consider "fst a < t" | "fst a = t" | "t < fst a" using less_linear by blast
  then show ?case
  proof cases
    case 1
    then show ?thesis using IH by auto
  next
    case 2
    then have "filter (\<lambda>p. fst p < t) s = []" using le by (auto simp: filter_empty_conv)
    then show ?thesis using 2 IH by auto
  next
    case 3
    then have "filter (\<lambda>p. fst p < t) s = []" "filter (\<lambda>p. fst p = t) s = []"
      using le by (auto simp: filter_empty_conv)
    then show ?thesis using 3 IH by auto
  qed
qed

lemma sorted_partsE:
  assumes "sorted (map fst s)"
  obtains A B C where "s = A @ B @ C" "parts t A B C"
proof -
  have "parts t (filter (\<lambda>p. fst p < t) s) (filter (\<lambda>p. fst p = t) s) (filter (\<lambda>p. t < fst p) s)"
    by (simp add: parts_def)
  then show thesis using sorted_parts [OF assms, of t] that by blast
qed

lemma lower_bound_ABC: "parts t A B C \<Longrightarrow> lower_bound (A @ B @ C) t = length A"
  by (simp add: parts_def lower_bound_parts)

lemma upper_bound_ABC: "parts t A B C \<Longrightarrow> upper_bound (A @ B @ C) t = length A + length B"
  by (simp add: parts_def upper_bound_parts)

lemma filter_ABC:
  assumes "parts t A B C"
  shows "filter (\<lambda>p. fst p = t) (A @ B @ C) = B"
proof -
  have "filter (\<lambda>p. fst p = t) A = []" "filter (\<lambda>p. fst p = t) C = []"
    using assms by (auto simp: parts_def filter_empty_conv)
  moreover have "filter (\<lambda>p. fst p = t) B = B"
    using assms by (simp add: parts_def filter_id_conv)
  ultimately show ?thesis by simp
qed

lemma count_mm_ABC: "parts t A B C \<Longrightarrow> count_mm (A @ B @ C) t = length B"
  by (simp add: count_mm_def lower_bound_ABC upper_bound_ABC)

lemma equal_range_ABC:
  "parts t A B C \<Longrightarrow>
   take (upper_bound (A @ B @ C) t - lower_bound (A @ B @ C) t)
        (drop (lower_bound (A @ B @ C) t) (A @ B @ C)) = B"
  by (simp add: lower_bound_ABC upper_bound_ABC)

lemma find_mm_ABC:
  assumes "parts t A B C"
  shows "find_mm (A @ B @ C) t = (if B = [] then length (A @ B @ C) else length A)"
proof (cases B)
  case Nil
  show ?thesis
  proof (cases C)
    case Nil
    with \<open>B = []\<close> assms show ?thesis
      using lower_bound_ABC [OF assms] by (simp add: find_mm_def mm_end_def)
  next
    case (Cons c C')
    then have "t < fst c" using assms by (simp add: parts_def)
    with Cons \<open>B = []\<close> show ?thesis
      using lower_bound_ABC [OF assms] by (simp add: find_mm_def mm_end_def)
  qed
next
  case (Cons b B')
  then have "fst b = t" using assms by (simp add: parts_def)
  with Cons show ?thesis
    using lower_bound_ABC [OF assms] by (simp add: find_mm_def mm_end_def)
qed

lemma emplace_ABC:
  "parts t A B C \<Longrightarrow> emplace (A @ B @ C) t x = A @ (B @ [(t, x)]) @ C"
  by (simp add: emplace_def upper_bound_ABC)

lemma parts_emplace: "parts t A B C \<Longrightarrow> parts t A (B @ [(t, x)]) C"
  by (simp add: parts_def)

lemma sorted_same_key: "\<forall>p\<in>set B. fst p = t \<Longrightarrow> sorted (map fst B)"
  by (induction B) auto

lemma sorted_ABC:
  assumes "parts t A B C"
  shows "sorted (map fst (A @ B @ C)) = (sorted (map fst A) \<and> sorted (map fst C))"
proof -
  have "\<forall>p\<in>set B. fst p = t" using assms by (simp add: parts_def)
  then have "sorted (map fst B)" by (rule sorted_same_key)
  moreover have "\<forall>a\<in>set A. \<forall>b\<in>set B. fst a \<le> fst b"
    "\<forall>a\<in>set A. \<forall>c\<in>set C. fst a \<le> fst c" "\<forall>b\<in>set B. \<forall>c\<in>set C. fst b \<le> fst c"
    using assms unfolding parts_def by fastforce+
  ultimately show ?thesis by (auto simp: sorted_append)
qed

lemma sorted_emplace: "sorted (map fst s) \<Longrightarrow> sorted (map fst (emplace s t x))"
proof -
  assume s: "sorted (map fst s)"
  then obtain A B C where ABC: "s = A @ B @ C" "parts t A B C" by (rule sorted_partsE)
  have "sorted (map fst (A @ (B @ [(t, x)]) @ C))"
    using s ABC sorted_ABC [OF ABC(2)] sorted_ABC [OF parts_emplace [OF ABC(2)], of x] by simp
  then show ?thesis using ABC by (simp add: emplace_ABC)
qed

lemma filter_emplace_same:
  "sorted (map fst s) \<Longrightarrow> filter (\<lambda>p. fst p = t) (emplace s t x) = filter (\<lambda>p. fst p = t) s @ [(t, x)]"
proof -
  assume s: "sorted (map fst s)"
  then obtain A B C where ABC: "s = A @ B @ C" "parts t A B C" by (rule sorted_partsE)
  show ?thesis
    using ABC filter_ABC [OF ABC(2)] filter_ABC [OF parts_emplace [OF ABC(2)], of x]
    by (simp add: emplace_ABC)
qed

lemma filter_emplace_other:
  "t' \<noteq> t \<Longrightarrow> filter (\<lambda>p. fst p = t') (emplace s t x) = filter (\<lambda>p. fst p = t') s"
proof -
  assume "t' \<noteq> t"
  then have "filter (\<lambda>p. fst p = t') (emplace s t x)
     = filter (\<lambda>p. fst p = t') (take (upper_bound s t) s @ drop (upper_bound s t) s)"
    unfolding emplace_def by (simp del: append_take_drop_id)
  then show ?thesis by simp
qed

lemma equal_range_sorted:
  "sorted (map fst s) \<Longrightarrow>
   take (upper_bound s t - lower_bound s t) (drop (lower_bound s t) s) = filter (\<lambda>p. fst p = t) s"
proof -
  assume s: "sorted (map fst s)"
  then obtain A B C where ABC: "s = A @ B @ C" "parts t A B C" by (rule sorted_partsE)
  show ?thesis using equal_range_ABC [OF ABC(2)] filter_ABC [OF ABC(2)] ABC(1) by simp
qed

lemma count_mm_sorted:
  "sorted (map fst s) \<Longrightarrow> count_mm s t = length (filter (\<lambda>p. fst p = t) s)"
proof -
  assume s: "sorted (map fst s)"
  then obtain A B C where ABC: "s = A @ B @ C" "parts t A B C" by (rule sorted_partsE)
  show ?thesis using count_mm_ABC [OF ABC(2)] filter_ABC [OF ABC(2)] ABC(1) by simp
qed

lemma getElements_chronological:
  "chronological D \<Longrightarrow>
   getElements D ID t =
     (case DataStreams D ID of None \<Rightarrow> [] | Some s \<Rightarrow> map snd (filter (\<lambda>p. fst p = t) s))"
  by (auto simp: getElements_def chronological_def equal_range_sorted split: option.splits)

lemma countElement_chronological:
  "chronological D \<Longrightarrow> countElement D ID t = int (length (getElements D ID t))"
  by (auto simp: getElements_chronological countElement_def chronological_def count_mm_sorted
      split: option.splits)

lemma DataStreams_addElement:
  "DataStreams (addElement D ID t x) =
     (DataStreams D)(ID \<mapsto> emplace (case DataStreams D ID of None \<Rightarrow> [] | Some s \<Rightarrow> s) t x)"
  by (auto simp: addElement_def checkID_def Let_def)

lemma chronological_addElement:
  "chronological D \<Longrightarrow> chronological (addElement D ID t x)"
  by (auto simp: chronological_def DataStreams_addElement sorted_emplace split: option.splits)

lemma getElements_addElement:
  assumes "chronological D"
  shows "getElements (addElement D ID' t' x) ID t =
           getElements D ID t @ (if ID' = ID \<and> t' = t then [x] else [])"
proof -
  have c: "chronological (addElement D ID' t' x)" using assms by (rule chronological_addElement)
  have s: "sorted (map fst (case DataStreams D ID' of None \<Rightarrow> [] | Some s \<Rightarrow> s))"
    using assms by (auto simp: chronological_def split: option.splits)
  show ?thesis
    using filter_emplace_same [OF s, of t' x]
    by (auto simp: getElements_chronological [OF c] getElements_chronological [OF assms]
        DataStreams_addElement filter_emplace_other split: option.splits)
qed

lemma chronological_addElements:
  "chronological D \<Longrightarrow> chronological (addElements D calls)"
  by (induction D calls rule: addElements.induct) (simp_all add: chronological_addElement)

lemma getElements_addElements:
  "chronological D \<Longrightarrow>
   getElements (addElements D calls) ID t = getElements D ID t @ inserted calls ID t"
proof (induction D calls rule: addElements.induct)
  case (1 D)
  then show ?case by (simp add: inserted_def)
next
  case (2 D ID' t' x calls)
  then show ?case
    by (simp add: chronological_addElement getElements_addElement inserted_def)
qed

text \<open>Access by index, for a stream in its three parts.\<close>

lemma access_ABC:
  assumes "parts t A B C" "i < length B"
  shows "advance (A @ B @ C) (find_mm (A @ B @ C) t) (int i) = Inr (length A + i)"
    and "value_at (A @ B @ C) (length A + i) = Inr (snd (B ! i))"
proof -
  have "B \<noteq> []" using assms(2) by auto
  then show "advance (A @ B @ C) (find_mm (A @ B @ C) t) (int i) = Inr (length A + i)"
    using assms by (simp add: find_mm_ABC advance_def Let_def)
  show "value_at (A @ B @ C) (length A + i) = Inr (snd (B ! i))"
    using assms(2) by (simp add: value_at_def nth_append)
qed

lemma getElement_out_chronological:
  assumes "chronological D" "0 \<le> N" "N < countElement D ID t"
  shows "getElement_out D ID t N = Inr (getElements D ID t ! nat N)"
    and "getElement D ID t N = Inr (StreamNode (nat N + 
          (case DataStreams D ID of None \<Rightarrow> 0 | Some s \<Rightarrow> lower_bound s t)))"
    and "deref D ID (StreamNode (nat N + 
          (case DataStreams D ID of None \<Rightarrow> 0 | Some s \<Rightarrow> lower_bound s t))) = getElements D ID t ! nat N"
proof -
  obtain s where s: "DataStreams D ID = Some s"
    using assms(2,3) by (cases "DataStreams D ID") (auto simp: countElement_def)
  then have "sorted (map fst s)" using assms(1) by (simp add: chronological_def)
  then obtain A B C where ABC: "s = A @ B @ C" "parts t A B C" by (rule sorted_partsE)
  have n: "nat N < length B" "int (nat N) = N"
    using assms(2,3) s ABC count_mm_ABC [OF ABC(2)] by (auto simp: countElement_def)
  have g: "getElements D ID t = map snd B"
    using s ABC equal_range_ABC [OF ABC(2)] by (simp add: getElements_def)
  have chk: "checkElement D ID t N" using assms(3) by (simp add: checkElement_def)
  show "getElement_out D ID t N = Inr (getElements D ID t ! nat N)"
    using access_ABC [OF ABC(2) n(1)] n s ABC(1) chk g
    by (simp add: getElement_out_def at_ID_def)
  show "getElement D ID t N = Inr (StreamNode (nat N + 
          (case DataStreams D ID of None \<Rightarrow> 0 | Some s \<Rightarrow> lower_bound s t)))"
    using access_ABC [OF ABC(2) n(1)] n s ABC(1) chk lower_bound_ABC [OF ABC(2)]
    by (simp add: getElement_def at_ID_def add.commute)
  show "deref D ID (StreamNode (nat N + 
          (case DataStreams D ID of None \<Rightarrow> 0 | Some s \<Rightarrow> lower_bound s t))) = getElements D ID t ! nat N"
    using n s ABC(1) g lower_bound_ABC [OF ABC(2)]
    by (simp add: deref_def nth_append)
qed

lemma erase_it_ABC:
  assumes "i < length B"
  shows "erase_it (A @ B @ C) (length A + i) = Inr (A @ (take i B @ drop (Suc i) B) @ C)"
  using assms by (simp add: erase_it_def)

lemma parts_erase: "parts t A B C \<Longrightarrow> parts t A (take i B @ drop (Suc i) B) C"
  by (auto simp: parts_def dest: in_set_takeD in_set_dropD)

lemma removeElement_chronological:
  assumes "chronological D" "0 \<le> N" "N < countElement D ID t"
  shows "\<exists>D'. removeElement D ID t N = Inr D' \<and> chronological D' \<and>
           getElements D' ID t =
             take (nat N) (getElements D ID t) @ drop (Suc (nat N)) (getElements D ID t)"
proof -
  obtain s where s: "DataStreams D ID = Some s"
    using assms(2,3) by (cases "DataStreams D ID") (auto simp: countElement_def)
  then have srt: "sorted (map fst s)" using assms(1) by (simp add: chronological_def)
  then obtain A B C where ABC: "s = A @ B @ C" "parts t A B C" by (rule sorted_partsE)
  have n: "nat N < length B" "int (nat N) = N"
    using assms(2,3) s ABC count_mm_ABC [OF ABC(2)] by (auto simp: countElement_def)
  have g: "getElements D ID t = map snd B"
    using s ABC equal_range_ABC [OF ABC(2)] by (simp add: getElements_def)
  have chk: "checkElement D ID t N" using assms(3) by (simp add: checkElement_def)
  define B' where "B' = take (nat N) B @ drop (Suc (nat N)) B"
  define s' where "s' = A @ B' @ C"
  define D' where "D' = D\<lparr>DataStreams := (if s' = [] then (DataStreams D)(ID := None)
                                         else (DataStreams D)(ID \<mapsto> s'))\<rparr>"
  have p': "parts t A B' C" unfolding B'_def using ABC(2) by (rule parts_erase)
  have "advance s (find_mm s t) N = Inr (length A + nat N)"
    using access_ABC(1) [OF ABC(2) n(1)] n(2) ABC(1) by simp
  moreover have "erase_it s (length A + nat N) = Inr s'"
    using erase_it_ABC [OF n(1), of A C] ABC(1) by (simp add: s'_def B'_def)
  ultimately have r: "removeElement D ID t N = Inr D'"
    using s chk by (simp add: removeElement_def at_ID_def D'_def)
  have "sorted (map fst s')"
    using srt ABC(1) sorted_ABC [OF ABC(2)] sorted_ABC [OF p'] by (simp add: s'_def)
  then have c: "chronological D'"
    using assms(1) by (auto simp: chronological_def D'_def split: if_splits)
  have "getElements D' ID t = map snd B'"
  proof (cases "s' = []")
    case True
    then have "B' = []" by (simp add: s'_def)
    with True show ?thesis by (simp add: getElements_def D'_def)
  next
    case False
    then show ?thesis using equal_range_ABC [OF p'] by (simp add: getElements_def D'_def s'_def)
  qed
  then have "getElements D' ID t =
      take (nat N) (getElements D ID t) @ drop (Suc (nat N)) (getElements D ID t)"
    by (simp add: g B'_def take_map drop_map)
  with r c show ?thesis by blast
qed

lemma length_takeWhile_le_index:
  assumes "i < length xs" "\<not> P (xs ! i)"
  shows "length (takeWhile P xs) \<le> i"
proof (rule ccontr)
  assume "\<not> length (takeWhile P xs) \<le> i"
  then have i: "i < length (takeWhile P xs)" by simp
  then have "takeWhile P xs ! i = xs ! i" by (rule takeWhile_nth)
  moreover have "takeWhile P xs ! i \<in> set (takeWhile P xs)" using i by simp
  ultimately show False using assms(2) by (auto dest: set_takeWhileD)
qed

lemma sorted_last_max:
  "sorted (map fst A) \<Longrightarrow> A \<noteq> [] \<Longrightarrow> \<forall>a\<in>set A. fst a \<le> fst (last A)"
proof (induction A)
  case Nil
  then show ?case by simp
next
  case (Cons x A)
  then show ?case by (cases A) auto
qed

text \<open>The node before the first node of a timestamp, and what follows its timestamp.\<close>

lemma before_parts:
  assumes "sorted (map fst (A @ B @ C))" "parts t A B C" "A \<noteq> []" "B \<noteq> []"
  shows "upper_bound (A @ B @ C) (fst (last A)) = length A"
    and "lower_bound (A @ B @ C) (fst (last A)) < length A"
    and "fst (last A) < t"
proof -
  let ?p = "fst (last A)"
  have sA: "sorted (map fst A)" using assms(1) by (simp add: sorted_append)
  have lt: "?p < t" using assms(2,3) by (simp add: parts_def)
  then show "?p < t" .
  have "\<forall>a\<in>set A. fst a \<le> ?p" using sA assms(3) by (rule sorted_last_max)
  moreover have "\<forall>x\<in>set (B @ C). \<not> fst x \<le> ?p"
    using assms(2) lt by (fastforce simp: parts_def)
  ultimately have "takeWhile (\<lambda>x. fst x \<le> ?p) (A @ (B @ C)) = A"
    by (rule takeWhile_all_none)
  then show "upper_bound (A @ B @ C) ?p = length A" by (simp only: upper_bound_def)
  have i: "length A - 1 < length (A @ B @ C)" using assms(3) by (cases A) auto
  have "(A @ B @ C) ! (length A - 1) = last A"
    using assms(3) by (simp add: nth_append last_conv_nth)
  then have "\<not> fst ((A @ B @ C) ! (length A - 1)) < ?p" by simp
  then have "length (takeWhile (\<lambda>x. fst x < ?p) (A @ B @ C)) \<le> length A - 1"
    using i by (intro length_takeWhile_le_index)
  then show "lower_bound (A @ B @ C) ?p < length A"
    using assms(3) by (cases A) (auto simp: lower_bound_def)
qed

lemma getTimePrev_single_parts:
  assumes "DataStreams D ID = Some (A @ [b] @ C)" "parts t A [b] C"
  shows "getTimePrev D ID t = (if A = [] then Inl NotFound else Inr (fst (last A)))"
proof -
  have c: "countElement D ID t = 1"
    using assms count_mm_ABC [OF assms(2)] by (simp add: countElement_def)
  have f: "find_mm (A @ [b] @ C) t = length A"
    using find_mm_ABC [OF assms(2)] by simp
  show ?thesis
  proof (cases "A = []")
    case True
    then show ?thesis
      using assms(1) c f by (simp add: getTimePrev_def at_ID_def advance_def mm_begin_def)
  next
    case False
    then have "(A @ [b] @ C) ! (length A - 1) = last A"
      by (simp add: nth_append last_conv_nth)
    moreover have "0 < length A" using False by simp
    ultimately show ?thesis
      using assms(1) c f False
      by (simp add: getTimePrev_def at_ID_def advance_def mm_begin_def key_at_def Let_def
          nat_diff_distrib')
  qed
qed

section \<open>The claims about DataSet\<close>

lemmas mm_defs = lower_bound_def upper_bound_def find_mm_def count_mm_def emplace_def erase_it_def
  advance_def key_at_def value_at_def mm_begin_def mm_end_def at_ID_def

lemma stream_1233_eq:
  "stream_1233 = \<lparr>DataStreams = [''k'' \<mapsto> [(1, 10), (2, 20), (3, 30), (3, 31)]], NullObject = 0\<rparr>"
  by (simp add: stream_1233_def empty_DataSet_def addElement_def checkID_def mm_defs)

lemma stream_133_eq:
  "stream_133 = \<lparr>DataStreams = [''k'' \<mapsto> [(1, 10), (3, 30), (3, 31)]], NullObject = 0\<rparr>"
  by (simp add: stream_133_def empty_DataSet_def addElement_def checkID_def mm_defs)

subsection \<open>C1: access to an element that is not stored\<close>

text \<open>
  C1, as stated, fails for the accessor that returns a reference: on a data set with no
  element at all it does not fail with \<open>NotFound\<close>; it returns a reference to the data
  set's \<^verbatim>\<open>NullObject\<close>, which the caller can read like any other object.
\<close>

theorem NullObject_returned_when_absent:
  "countElement empty_DataSet ''position'' 0 = 0
   \<and> getElement empty_DataSet ''position'' 0 0 \<noteq> Inl NotFound
   \<and> getElement empty_DataSet ''position'' 0 0 = Inr NullObjectRef
   \<and> deref empty_DataSet ''position'' NullObjectRef = NullObject empty_DataSet"
  by (simp add: empty_DataSet_def getElement_def checkElement_def countElement_def deref_def)

text \<open>
  C1, amended. Where the number of elements stored for a key and timestamp is at most
  \<open>Number\<close> (so \<open>Number\<close> is not negative and no element is stored at that index), the
  accessor with an output parameter returns \<^verbatim>\<open>false\<close>, and the accessor that returns a
  reference returns the reference to \<^verbatim>\<open>NullObject\<close>, which is not a node of any stream.
\<close>

theorem getElement_absent:
  assumes "countElement D ID Timestamp \<le> Number"
  shows "getElement_out D ID Timestamp Number = Inl NotFound
       \<and> getElement D ID Timestamp Number = Inr NullObjectRef
       \<and> deref D ID NullObjectRef = NullObject D
       \<and> 0 \<le> Number"
proof -
  have "0 \<le> countElement D ID Timestamp"
    by (simp add: countElement_def split: option.splits)
  then show ?thesis
    using assms by (simp add: getElement_out_def getElement_def checkElement_def deref_def)
qed

theorem getElement_absent_witness:
  "countElement stream_133 ''k'' 3 \<le> 2
   \<and> getElement_out stream_133 ''k'' 3 2 = Inl NotFound
   \<and> getElement stream_133 ''k'' 3 2 = Inr NullObjectRef
   \<and> deref stream_133 ''k'' NullObjectRef = 0"
proof -
  have h: "countElement stream_133 ''k'' 3 \<le> 2"
    by (simp add: stream_133_eq countElement_def mm_defs)
  show ?thesis
    using h getElement_absent [OF h] by (simp add: stream_133_eq)
qed

text \<open>
  A negative \<open>Number\<close> passes \<^verbatim>\<open>checkElement\<close> whatever is stored: with a timestamp that
  the key does not have, the iterator steps back from \<^verbatim>\<open>end()\<close> to the last node of the
  stream, and with a key that does not exist \<^verbatim>\<open>at\<close> throws.
\<close>

lemma getElement_negative_Number:
  "countElement stream_133 ''k'' 2 = 0
   \<and> getElement_out stream_133 ''k'' 2 (- 1) = Inr 31
   \<and> getElement stream_133 ''k'' 2 (- 1) = Inr (StreamNode 2)
   \<and> getElement_out stream_133 ''j'' 2 (- 1) = Inl out_of_range"
  by (simp add: stream_133_eq countElement_def getElement_out_def getElement_def checkElement_def mm_defs)

subsection \<open>C3: the next timestamp of the previous timestamp\<close>

text \<open>
  C3 says that \<open>next(prev(t)) = t\<close> whenever both are defined, also when \<open>t\<close> carries
  several elements. \<^verbatim>\<open>getTimePrev\<close> moves back by \<^verbatim>\<open>NextElements - 1\<close> nodes from the node
  that \<^verbatim>\<open>find\<close> returns, which is already the first node of the timestamp. With the
  timestamps 1, 2, 3, 3 the previous timestamp of 3 comes out as 1, and the next
  timestamp of 1 is 2.
\<close>

theorem getTimePrev_steps_over_a_timestamp:
  "DataStreams stream_1233 ''k'' = Some [(1, 10), (2, 20), (3, 30), (3, 31)]
   \<and> getElements stream_1233 ''k'' 3 = [30, 31]
   \<and> getTimePrev stream_1233 ''k'' 3 = Inr 1
   \<and> getTimeNext stream_1233 ''k'' 1 = Inr 2"
  by (simp add: stream_1233_eq chronological_def getElements_def getTimePrev_def getTimeNext_def
      countElement_def checkElement_def mm_defs)

text \<open>
  Where the timestamp carries exactly one element the backward step is by zero nodes,
  and the next timestamp of the previous timestamp is the timestamp itself, whatever the
  number of elements at the previous timestamp.
\<close>

lemma getTimeNext_of_getTimePrev:
  assumes "chronological D" "countElement D ID t = 1" "getTimePrev D ID t = Inr p"
  shows "getTimeNext D ID p = Inr t \<and> p < t"
proof -
  obtain s where s: "DataStreams D ID = Some s"
    using assms(2) by (cases "DataStreams D ID") (auto simp: countElement_def)
  then have srt: "sorted (map fst s)" using assms(1) by (simp add: chronological_def)
  then obtain A B C where ABC: "s = A @ B @ C" "parts t A B C" by (rule sorted_partsE)
  have "length B = 1" using assms(2) s ABC count_mm_ABC [OF ABC(2)] by (simp add: countElement_def)
  then obtain b where B: "B = [b]" by (cases B) auto
  have bt: "fst b = t" using ABC(2) B by (simp add: parts_def)
  have prev: "getTimePrev D ID t = (if A = [] then Inl NotFound else Inr (fst (last A)))"
    using getTimePrev_single_parts [of D ID A b C t] s ABC B by simp
  then have A: "A \<noteq> []" and p: "p = fst (last A)" using assms(3) by (auto split: if_splits)
  have srt': "sorted (map fst (A @ B @ C))" using srt ABC(1) by simp
  have "B \<noteq> []" using B by simp
  note bp = before_parts [OF srt' ABC(2) A this]
  have "count_mm s p > 0"
    using bp(1,2) ABC(1) p by (simp add: count_mm_def)
  then have chk: "checkElement D ID p 0" using s by (simp add: checkElement_def countElement_def)
  have "key_at s (length A) = Inr t"
    using ABC(1) B bt by (simp add: key_at_def nth_append)
  then have "getTimeNext D ID p = Inr t"
    using chk s bp(1) ABC(1) p B by (simp add: getTimeNext_def at_ID_def mm_end_def)
  then show ?thesis using bp(3) p by simp
qed

subsection \<open>C4: insertion order at one timestamp\<close>

text \<open>
  C4. After any sequence of \<^verbatim>\<open>addElement\<close> calls on a data set, the elements that the
  calls gave for a key and timestamp follow the elements that were there, in call order:
  the \<open>i\<close>-th of them is returned by both accessors at index \<open>i\<close> counted from the
  number of elements stored before. Removing the element of index \<open>N\<close> leaves the other
  elements of the timestamp in their order.
\<close>

theorem add_get_remove_order:
  assumes "chronological D"
  shows "(\<forall>i < length (inserted calls ID t).
            getElement_out (addElements D calls) ID t (countElement D ID t + int i)
              = Inr (inserted calls ID t ! i)
          \<and> (\<exists>j. getElement (addElements D calls) ID t (countElement D ID t + int i)
                    = Inr (StreamNode j)
                \<and> deref (addElements D calls) ID (StreamNode j) = inserted calls ID t ! i))
       \<and> (\<forall>N. 0 \<le> N \<and> N < countElement D ID t \<longrightarrow>
            (\<exists>D'. removeElement D ID t N = Inr D' \<and>
              getElements D' ID t =
                take (nat N) (getElements D ID t) @ drop (Suc (nat N)) (getElements D ID t)))"
proof (intro conjI allI impI)
  fix i
  assume i: "i < length (inserted calls ID t)"
  let ?D = "addElements D calls" and ?N = "countElement D ID t + int i"
  have c: "chronological ?D" using assms by (rule chronological_addElements)
  have g: "getElements ?D ID t = getElements D ID t @ inserted calls ID t"
    using assms by (rule getElements_addElements)
  have n0: "countElement D ID t = int (length (getElements D ID t))"
    using assms by (rule countElement_chronological)
  have N: "0 \<le> ?N" "?N < countElement ?D ID t"
    using i by (simp_all add: countElement_chronological [OF c] g n0)
  have nth: "getElements ?D ID t ! nat ?N = inserted calls ID t ! i"
    by (simp add: g n0 nth_append nat_add_distrib)
  show "getElement_out ?D ID t ?N = Inr (inserted calls ID t ! i)"
    using getElement_out_chronological(1) [OF c N] nth by simp
  show "\<exists>j. getElement ?D ID t ?N = Inr (StreamNode j)
          \<and> deref ?D ID (StreamNode j) = inserted calls ID t ! i"
    using getElement_out_chronological(2,3) [OF c N] nth by auto
next
  fix N
  assume "0 \<le> N \<and> N < countElement D ID t"
  then show "\<exists>D'. removeElement D ID t N = Inr D' \<and>
              getElements D' ID t =
                take (nat N) (getElements D ID t) @ drop (Suc (nat N)) (getElements D ID t)"
    using removeElement_chronological [OF assms, of N ID t] by blast
qed

theorem add_get_remove_order_witness:
  "chronological stream_133
   \<and> getElement_out (addElements stream_133 [(''k'', 3, 32), (''j'', 3, 50), (''k'', 3, 33)]) ''k'' 3 3
       = Inr 33
   \<and> (\<exists>D'. removeElement stream_133 ''k'' 3 0 = Inr D' \<and> getElements D' ''k'' 3 = [31])"
proof -
  have h: "chronological stream_133" by (simp add: stream_133_eq chronological_def)
  have c: "countElement stream_133 ''k'' 3 = 2"
    by (simp add: stream_133_eq countElement_def mm_defs)
  have g: "getElements stream_133 ''k'' 3 = [30, 31]"
    by (simp add: stream_133_eq getElements_def mm_defs)
  have i: "inserted [(''k'', 3, 32), (''j'', 3, 50), (''k'', 3, 33 :: nat)] ''k'' 3 = [32, 33]"
    by (simp add: inserted_def)
  note t = add_get_remove_order [OF h, of "[(''k'', 3, 32), (''j'', 3, 50), (''k'', 3, 33)]" "''k''" 3]
  have "getElement_out (addElements stream_133 [(''k'', 3, 32), (''j'', 3, 50), (''k'', 3, 33)]) ''k'' 3 3
       = Inr 33"
    using t [THEN conjunct1, rule_format, of 1, THEN conjunct1] i c by simp
  moreover have "\<exists>D'. removeElement stream_133 ''k'' 3 0 = Inr D' \<and> getElements D' ''k'' 3 = [31]"
    using t [THEN conjunct2, rule_format, of 0] c g by simp
  ultimately show ?thesis using h by simp
qed

subsection \<open>C5: the closest timestamp at equal distance\<close>

text \<open>
  C5 says that between two adjacent timestamps at equal distance \<^verbatim>\<open>getTimeCloseTo\<close>
  returns the newer one. With the timestamps 1, 3, 3 and the query 2 it returns
  \<^verbatim>\<open>false\<close>: \<^verbatim>\<open>getTimePrev\<close> of 3 moves back one node from the first node of
  timestamp 3, reaches \<^verbatim>\<open>begin()\<close> and reports that there is no previous timestamp.
\<close>

theorem getTimeCloseTo_fails_between:
  "DataStreams stream_133 ''k'' = Some [(1, 10), (3, 30), (3, 31)]
   \<and> getElements stream_133 ''k'' 1 = [10]
   \<and> getElements stream_133 ''k'' 3 = [30, 31]
   \<and> getTimePrev stream_133 ''k'' 3 = Inl NotFound
   \<and> getTimeCloseTo stream_133 ''k'' 2 = Inl NotFound"
  by (simp add: stream_133_eq chronological_def getElements_def getTimePrev_def getTimeCloseTo_def
      countElement_def checkElement_def checkID_def mm_defs)

text \<open>
  Where the newer of the two timestamps carries exactly one element, \<^verbatim>\<open>getTimeCloseTo\<close>
  returns the nearer of the two timestamps, and the newer one at equal distance.
\<close>

lemma getTimeCloseTo_between:
  assumes "chronological D" "DataStreams D ID = Some s"
    and a: "a \<in> fst ` set s" and b: "b \<in> fst ` set s"
    and adj: "\<forall>x\<in>set s. fst x \<le> a \<or> b \<le> fst x"
    and T: "a < T" "T < b"
    and one: "countElement D ID b = 1"
  shows "getTimeCloseTo D ID T = (if b - T \<le> T - a then Inr b else Inr a)"
proof -
  have srt: "sorted (map fst s)" using assms(1,2) by (simp add: chronological_def)
  then obtain A B C where ABC: "s = A @ B @ C" "parts b A B C" by (rule sorted_partsE)
  have "length B = 1"
    using one assms(2) ABC count_mm_ABC [OF ABC(2)] by (simp add: countElement_def)
  then obtain b' where B: "B = [b']" by (cases B) auto
  have b't: "fst b' = b" using ABC(2) B by (simp add: parts_def)
  have inA: "x \<in> set A \<longleftrightarrow> x \<in> set s \<and> fst x < b" for x
    using ABC by (auto simp: parts_def)
  have Alt: "\<forall>x\<in>set A. fst x \<le> a"
  proof
    fix x assume "x \<in> set A"
    then have "x \<in> set s" "fst x < b" by (simp_all add: inA)
    then show "fst x \<le> a" using adj by fastforce
  qed
  have "\<exists>x\<in>set A. fst x = a"
  proof -
    obtain x where "x \<in> set s" "fst x = a" using a by auto
    moreover have "a < b" using T by simp
    ultimately have "x \<in> set A" by (simp add: inA)
    then show ?thesis using \<open>fst x = a\<close> by blast
  qed
  then have Ane: "A \<noteq> []" by auto
  have srt': "sorted (map fst (A @ B @ C))" using srt ABC(1) by simp
  have sA: "sorted (map fst A)" using srt' by (simp add: sorted_append)
  have "\<forall>x\<in>set A. fst x \<le> fst (last A)" using sA Ane by (rule sorted_last_max)
  then have "a \<le> fst (last A)" using \<open>\<exists>x\<in>set A. fst x = a\<close> by auto
  moreover have "fst (last A) \<le> a" using Alt Ane by simp
  ultimately have lastA: "fst (last A) = a" by simp
  have "\<forall>x\<in>set A. fst x < T"
  proof
    fix x assume "x \<in> set A"
    then have "fst x \<le> a" using Alt by simp
    then show "fst x < T" using T(1) by simp
  qed
  moreover have "\<forall>x\<in>set (B @ C). \<not> fst x < T"
  proof
    fix x assume "x \<in> set (B @ C)"
    then have "b \<le> fst x" using ABC(2) by (auto simp: parts_def)
    then show "\<not> fst x < T" using T(2) by simp
  qed
  ultimately have "takeWhile (\<lambda>x. fst x < T) (A @ (B @ C)) = A"
    by (rule takeWhile_all_none)
  then have lb: "lower_bound s T = length A" using ABC(1) by (simp only: lower_bound_def)
  have k: "key_at s (length A) = Inr b"
    using ABC(1) B b't by (simp add: key_at_def nth_append)
  have prev: "getTimePrev D ID b = Inr a"
    using getTimePrev_single_parts [of D ID A b' C b] assms(2) ABC B Ane lastA by simp
  have "length A \<noteq> mm_end s" "length A \<noteq> mm_begin"
    using ABC(1) B Ane by (simp_all add: mm_end_def mm_begin_def)
  moreover have "b \<noteq> T" using T(2) by simp
  ultimately show ?thesis
    using assms(2) lb k prev
    by (simp add: getTimeCloseTo_def checkID_def at_ID_def)
qed

lemma getTimeCloseTo_tie:
  assumes "chronological D" "DataStreams D ID = Some s"
    and "a \<in> fst ` set s" and "b \<in> fst ` set s"
    and "\<forall>x\<in>set s. fst x \<le> a \<or> b \<le> fst x"
    and "a < T" "T < b" "b - T = T - a"
    and "countElement D ID b = 1"
  shows "getTimeCloseTo D ID T = Inr b"
  using getTimeCloseTo_between [OF assms(1-7) assms(9)] assms(8) by simp

subsection \<open>C10: the read through the end iterator\<close>

text \<open>
  C10. For a key whose stream is not empty and holds only timestamps smaller than the
  query, the lower bound is \<^verbatim>\<open>end()\<close>, and the first comparison of
  \<^verbatim>\<open>getTimeCloseTo\<close> reads its key: the read through the end iterator is what the call
  does.
\<close>

theorem getTimeCloseTo_reads_end:
  assumes "DataStreams D ID = Some s" "s \<noteq> []" "\<forall>p\<in>set s. fst p < Timestamp"
  shows "lower_bound s Timestamp = mm_end s
       \<and> key_at s (lower_bound s Timestamp) = Inl DerefEnd
       \<and> getTimeCloseTo D ID Timestamp = Inl DerefEnd"
proof -
  have "takeWhile (\<lambda>p. fst p < Timestamp) s = s"
    using assms(3) by (simp add: takeWhile_eq_all_conv)
  then have lb: "lower_bound s Timestamp = length s" by (simp only: lower_bound_def)
  then have k: "key_at s (lower_bound s Timestamp) = Inl DerefEnd" by (simp add: key_at_def)
  then have "getTimeCloseTo D ID Timestamp = Inl DerefEnd"
    using assms(1) by (simp add: getTimeCloseTo_def checkID_def at_ID_def)
  with lb k show ?thesis by (simp add: mm_end_def)
qed

theorem getTimeCloseTo_reads_end_witness:
  "DataStreams stream_133 ''k'' = Some [(1, 10), (3, 30), (3, 31)]
   \<and> list_all (\<lambda>p. fst p < (4 :: real)) [(1, 10), (3, 30), (3, 31 :: nat)]
   \<and> getTimeCloseTo stream_133 ''k'' 4 = Inl DerefEnd"
proof -
  have h1: "DataStreams stream_133 ''k'' = Some [(1, 10), (3, 30), (3, 31)]"
    by (simp add: stream_133_eq)
  have h2: "[(1, 10), (3, 30), (3, 31 :: nat)] \<noteq> ([] :: (real \<times> nat) list)" by simp
  have h3: "\<forall>p\<in>set [(1, 10), (3, 30), (3, 31 :: nat)]. fst p < (4 :: real)" by simp
  show ?thesis using h1 h3 getTimeCloseTo_reads_end [OF h1 h2 h3] by simp
qed

section \<open>Properties of the application\<close>

lemma chronological_empty: "chronological \<lparr>DataStreams = Map.empty, NullObject = z\<rparr>"
  by (simp add: chronological_def)

lemma no_empty_stream_empty: "no_empty_stream \<lparr>DataStreams = Map.empty, NullObject = z\<rparr>"
  by (simp add: no_empty_stream_def)

lemma no_empty_stream_addElement: "no_empty_stream D \<Longrightarrow> no_empty_stream (addElement D ID t x)"
  by (auto simp: no_empty_stream_def DataStreams_addElement emplace_def)

lemma no_empty_stream_addElements: "no_empty_stream D \<Longrightarrow> no_empty_stream (addElements D calls)"
  by (induction D calls rule: addElements.induct) (simp_all add: no_empty_stream_addElement)

lemma getTimeFirst_cases:
  "no_empty_stream D \<Longrightarrow> getTimeFirst D ID = Inl NotFound \<or> (\<exists>t. getTimeFirst D ID = Inr t)"
  by (cases "DataStreams D ID")
     (auto simp: getTimeFirst_def checkID_def at_ID_def key_at_def mm_begin_def no_empty_stream_def)

lemma getTimeLast_cases:
  "no_empty_stream D \<Longrightarrow> getTimeLast D ID = Inl NotFound \<or> (\<exists>t. getTimeLast D ID = Inr t)"
proof (cases "DataStreams D ID")
  case None
  then show ?thesis by (simp add: getTimeLast_def checkID_def)
next
  case (Some s)
  assume "no_empty_stream D"
  then have "s \<noteq> []" using Some by (simp add: no_empty_stream_def)
  then have "nat (int (length s) - 1) < length s" by (cases s) auto
  then show ?thesis
    using Some \<open>s \<noteq> []\<close> by (simp add: getTimeLast_def checkID_def at_ID_def advance_def mm_end_def key_at_def)
qed

lemma getTimeNext_cases:
  "getTimeNext D ID T = Inl NotFound \<or> (\<exists>t. getTimeNext D ID T = Inr t)"
proof (cases "DataStreams D ID")
  case None
  then show ?thesis by (simp add: getTimeNext_def checkElement_def countElement_def)
next
  case (Some s)
  have "upper_bound s T \<le> length s" by (simp add: upper_bound_def length_takeWhile_le)
  then show ?thesis
    using Some by (auto simp: getTimeNext_def at_ID_def key_at_def mm_end_def Let_def)
qed

lemma getElement_cases:
  assumes "chronological D" "0 \<le> N"
  shows "\<exists>r. getElement D ID T N = Inr r"
proof (cases "N < countElement D ID T")
  case True
  then show ?thesis using getElement_out_chronological(2) [OF assms True] by blast
next
  case False
  then show ?thesis by (simp add: getElement_def checkElement_def)
qed

lemma Calls_call [simp]: "Calls (call c P) = Calls P @ [c]"
  and GMM_static_call [simp]: "GMM_static (call c P) = GMM_static P"
  and MaxMix_call [simp]: "NoisePseudorangeMaxMix (call c P) = NoisePseudorangeMaxMix P"
  and SumMix_call [simp]: "NoisePseudorangeSumMix (call c P) = NoisePseudorangeSumMix P"
  and GMMAdaptive_call [simp]: "GMMAdaptive (call c P) = GMMAdaptive P"
  by (simp_all add: call_def)

lemma statics_from_call [simp]: "statics_from X Config (call c P) = statics_from X Config P"
  by (simp add: statics_from_def)

lemma statics_from_Type [simp]:
  "statics_from X (Config\<lparr>Type := T\<rparr>) P = statics_from X Config P"
  by (simp add: statics_from_def GMM_init_def)

lemma statics_from_start [simp]: "statics_from X Config Program_start"
  by (simp add: statics_from_def Program_start_def)

lemma pseudorange_factors_Nil [simp]: "pseudorange_factors X G Config T [] = []"
  by (simp add: pseudorange_factors_def)

lemma pseudorange_factors_Cons:
  "pseudorange_factors X G Config T (m # ms) =
     pseudorange_factors X G Config T [m] @ pseudorange_factors X G Config T ms"
  by (simp add: pseudorange_factors_def)

lemma getElement_nth:
  assumes "chronological D" "i < length (getElements D ID T)"
  shows "\<exists>j. getElement D ID T (int i) = Inr (StreamNode j)
            \<and> deref D ID (StreamNode j) = getElements D ID T ! i"
proof -
  have "int i < countElement D ID T"
    using assms by (simp add: countElement_chronological)
  then show ?thesis
    using getElement_out_chronological(2,3) [OF assms(1), of "int i" ID T] by auto
qed

lemma AddPseudorange_body_calls:
  assumes "chronological M" "i < length (getElements M Pseudorange3 T)" "statics_from X Config P"
  shows "\<exists>P'. AddPseudorange_body X G M Config T (int i) P = Inr P'
           \<and> Calls P' = Calls P @ pseudorange_factors X G Config T [getElements M Pseudorange3 T ! i]
           \<and> statics_from X Config P' \<and> GMMAdaptive P' = GMMAdaptive P"
proof -
  obtain j where j: "getElement M Pseudorange3 T (int i) = Inr (StreamNode j)"
    "deref M Pseudorange3 (StreamNode j) = getElements M Pseudorange3 T ! i"
    using getElement_nth [OF assms(1,2)] by blast
  show ?thesis
  proof (cases "Type Config")
    case Gaussian
    then show ?thesis using j assms(3)
      by (simp add: AddPseudorange_body_def pseudorange_factors_def pseudorange_noise_def Let_def)
  next
    case DCS
    then show ?thesis using j assms(3)
      by (simp add: AddPseudorange_body_def pseudorange_factors_def pseudorange_noise_def Let_def)
  next
    case cDCE
    then show ?thesis using j assms(3)
      by (simp add: AddPseudorange_body_def pseudorange_factors_def pseudorange_noise_def Let_def)
  next
    case OtherErrorModel
    then show ?thesis using j assms(3)
      by (simp add: AddPseudorange_body_def pseudorange_factors_def pseudorange_noise_def Let_def)
  next
    case GMM
    define P1 where "P1 = fill_GMM X Config P"
    have P1: "GMM_static P1 = GMM_init X Config" "Calls P1 = Calls P"
      "NoisePseudorangeMaxMix P1 = NoisePseudorangeMaxMix P"
      "NoisePseudorangeSumMix P1 = NoisePseudorangeSumMix P" "GMMAdaptive P1 = GMMAdaptive P"
      using assms(3)
      by (auto simp: P1_def fill_GMM_def GMM_init_def statics_from_def getNumberOfComponents_def)
    have mm: "(case NoisePseudorangeMaxMix P1 of None \<Rightarrow> GMM_static P1 | Some M' \<Rightarrow> M')
                = GMM_init X Config"
      and sm: "(case NoisePseudorangeSumMix P1 of None \<Rightarrow> GMM_static P1 | Some M' \<Rightarrow> M')
                = GMM_init X Config"
      using assms(3) P1 by (auto simp: statics_from_def split: option.splits)
    have st: "statics_from X Config P1"
      using assms(3) P1 by (simp add: statics_from_def)
    consider "MixtureType Config = MaxMix" | "MixtureType Config = SumMix"
      | "MixtureType Config = OtherMixture" by (cases "MixtureType Config") auto
    then show ?thesis
    proof cases
      case 1
      then show ?thesis
        using j GMM P1 st mm
        by (simp add: AddPseudorange_body_def P1_def [symmetric] Let_def statics_from_def
            pseudorange_factors_def pseudorange_noise_def)
    next
      case 2
      then show ?thesis
        using j GMM P1 st sm
        by (simp add: AddPseudorange_body_def P1_def [symmetric] Let_def statics_from_def
            pseudorange_factors_def pseudorange_noise_def)
    next
      case 3
      then show ?thesis
        using j GMM P1 st
        by (simp add: AddPseudorange_body_def P1_def [symmetric] Let_def
            pseudorange_factors_def pseudorange_noise_def)
    qed
  qed
qed

lemma AddPseudorange_loop_calls:
  assumes "chronological M"
  shows "\<forall>i\<in>set idxs. i < length (getElements M Pseudorange3 T) \<Longrightarrow> statics_from X Config P \<Longrightarrow>
         \<exists>P'. AddPseudorange_loop X G M Config T idxs P = Inr P'
           \<and> Calls P' = Calls P @ pseudorange_factors X G Config T
                                    (map (\<lambda>i. getElements M Pseudorange3 T ! i) idxs)
           \<and> statics_from X Config P' \<and> GMMAdaptive P' = GMMAdaptive P"
proof (induction idxs arbitrary: P)
  case Nil
  then show ?case by simp
next
  case (Cons i idxs)
  then have i: "i < length (getElements M Pseudorange3 T)" by simp
  obtain P1 where P1: "AddPseudorange_body X G M Config T (int i) P = Inr P1"
    "Calls P1 = Calls P @ pseudorange_factors X G Config T [getElements M Pseudorange3 T ! i]"
    "statics_from X Config P1" "GMMAdaptive P1 = GMMAdaptive P"
    using AddPseudorange_body_calls [OF assms i Cons.prems(2)] by blast
  obtain P' where P': "AddPseudorange_loop X G M Config T idxs P1 = Inr P'"
    "Calls P' = Calls P1 @ pseudorange_factors X G Config T
                                    (map (\<lambda>i. getElements M Pseudorange3 T ! i) idxs)"
    "statics_from X Config P'" "GMMAdaptive P' = GMMAdaptive P1"
    using Cons.IH [OF _ P1(3)] Cons.prems(1) by auto
  show ?case
    using P1 P' pseudorange_factors_Cons [of X G Config T "getElements M Pseudorange3 T ! i"
        "map (\<lambda>i. getElements M Pseudorange3 T ! i) idxs"]
    by simp
qed

lemma AddPseudorangeMeasurements_calls:
  assumes "chronological M" "statics_from X Config P"
  shows "\<exists>P'. AddPseudorangeMeasurements X G M Config T P = Inr P'
           \<and> Calls P' = Calls P @ pseudorange_factors X G Config T (getElements M Pseudorange3 T)
           \<and> statics_from X Config P' \<and> GMMAdaptive P' = GMMAdaptive P"
proof -
  let ?ms = "getElements M Pseudorange3 T"
  have n: "nat (countElement M Pseudorange3 T) = length ?ms"
    using assms(1) by (simp add: countElement_chronological)
  have "\<forall>i\<in>set [0..<length ?ms]. i < length ?ms" by simp
  then show ?thesis
    using AddPseudorange_loop_calls [OF assms(1) _ assms(2), of "[0..<length ?ms]" T G]
    by (simp add: AddPseudorangeMeasurements_def n map_nth)
qed

lemma apply_error_model_statics [simp]:
  "GMM_static (apply_error_model Config G P) = GMM_static P"
  "NoisePseudorangeMaxMix (apply_error_model Config G P) = NoisePseudorangeMaxMix P"
  "NoisePseudorangeSumMix (apply_error_model Config G P) = NoisePseudorangeSumMix P"
  "GMMAdaptive (apply_error_model Config G P) = GMMAdaptive P"
  by (simp_all add: apply_error_model_def)

lemma TuneErrorModel_None: "TuningType Config = None_Tuning \<Longrightarrow> TuneErrorModel X Config P = P"
  by (simp add: TuneErrorModel_def)

lemma TuneErrorModel_tuning_calls:
  "Calls (TuneErrorModel X Config P) = Calls P @ tuning_calls X Config (GMMAdaptive P) (Calls P)"
proof (cases "TuningType Config")
  case None_Tuning
  then show ?thesis by (simp add: TuneErrorModel_def tuning_calls_def)
next
  case EM
  then show ?thesis
    by (simp add: TuneErrorModel_def tuning_calls_def apply_error_model_def Let_def
        getNumberOfComponents_def)
next
  case VBI
  then show ?thesis
    by (simp add: TuneErrorModel_def tuning_calls_def apply_error_model_def Let_def)
next
  case OtherTuning
  then show ?thesis by (simp add: TuneErrorModel_def tuning_calls_def Let_def)
qed

lemma TuneErrorModel_statics:
  "statics_from X Config (TuneErrorModel X Config P) = statics_from X Config P"
  by (cases "TuningType Config") (simp_all add: TuneErrorModel_def Let_def statics_from_def)

lemma InitGraph_calls:
  assumes "chronological M" "statics_from X Config P"
  shows "\<exists>P'. InitGraph X M Config t P = Inr P'
     \<and> Calls P' = Calls P
        @ [Graph_addState SimpleGraph POSITION_STATE Point3 t,
           Graph_addState SimpleGraph CLOCK_ERROR_STATE ClockError t]
        @ pseudorange_factors X SimpleGraph (Config\<lparr>Type := Gaussian\<rparr>) t (getElements M Pseudorange3 t)
        @ [Graph_solve SimpleGraph,
           Graph_addState Graph POSITION_STATE Point3 t,
           Graph_addState Graph CLOCK_ERROR_STATE ClockError t,
           Graph_addState Graph ORIENTATION_STATE Angle t,
           Graph_addState Graph CLOCK_DRIFT_STATE ClockDrift t,
           Graph_setMean_from_SimpleGraph POSITION_STATE t,
           Graph_setMean_from_SimpleGraph CLOCK_ERROR_STATE t]
        @ pseudorange_factors X Graph Config t (getElements M Pseudorange3 t)
     \<and> statics_from X Config P' \<and> GMMAdaptive P' = GMMAdaptive P"
proof -
  define P2 where "P2 = call (Graph_addState SimpleGraph CLOCK_ERROR_STATE ClockError t)
                          (call (Graph_addState SimpleGraph POSITION_STATE Point3 t) P)"
  have s2: "statics_from X (Config\<lparr>Type := Gaussian\<rparr>) P2" using assms(2) by (simp add: P2_def)
  obtain P3 where P3: "AddPseudorangeMeasurements X SimpleGraph M (Config\<lparr>Type := Gaussian\<rparr>) t P2 = Inr P3"
    "Calls P3 = Calls P2 @ pseudorange_factors X SimpleGraph (Config\<lparr>Type := Gaussian\<rparr>) t
                              (getElements M Pseudorange3 t)"
    "statics_from X (Config\<lparr>Type := Gaussian\<rparr>) P3" "GMMAdaptive P3 = GMMAdaptive P2"
    using AddPseudorangeMeasurements_calls [OF assms(1) s2] by blast
  define P10 where "P10 =
     call (Graph_setMean_from_SimpleGraph CLOCK_ERROR_STATE t)
      (call (Graph_setMean_from_SimpleGraph POSITION_STATE t)
       (call (Graph_addState Graph CLOCK_DRIFT_STATE ClockDrift t)
        (call (Graph_addState Graph ORIENTATION_STATE Angle t)
         (call (Graph_addState Graph CLOCK_ERROR_STATE ClockError t)
          (call (Graph_addState Graph POSITION_STATE Point3 t)
           (call (Graph_solve SimpleGraph) P3))))))"
  have s10: "statics_from X Config P10" using P3(3) by (simp add: P10_def)
  obtain P' where P': "AddPseudorangeMeasurements X Graph M Config t P10 = Inr P'"
    "Calls P' = Calls P10 @ pseudorange_factors X Graph Config t (getElements M Pseudorange3 t)"
    "statics_from X Config P'" "GMMAdaptive P' = GMMAdaptive P10"
    using AddPseudorangeMeasurements_calls [OF assms(1) s10] by blast
  have "InitGraph X M Config t P = Inr P'"
    using P3(1) P'(1) by (simp add: InitGraph_def Let_def P2_def [symmetric] P10_def [symmetric])
  moreover have "Calls P10 = Calls P3 @ [Graph_solve SimpleGraph,
           Graph_addState Graph POSITION_STATE Point3 t,
           Graph_addState Graph CLOCK_ERROR_STATE ClockError t,
           Graph_addState Graph ORIENTATION_STATE Angle t,
           Graph_addState Graph CLOCK_DRIFT_STATE ClockDrift t,
           Graph_setMean_from_SimpleGraph POSITION_STATE t,
           Graph_setMean_from_SimpleGraph CLOCK_ERROR_STATE t]"
    by (simp add: P10_def)
  moreover have "Calls P2 = Calls P @ [Graph_addState SimpleGraph POSITION_STATE Point3 t,
           Graph_addState SimpleGraph CLOCK_ERROR_STATE ClockError t]"
    by (simp add: P2_def)
  moreover have "GMMAdaptive P' = GMMAdaptive P"
    using P'(4) P3(4) by (simp add: P10_def P2_def)
  ultimately show ?thesis using P3(2) P'(2,3) by simp
qed

lemma AddPseudorange_body_Inr:
  "getElement M Pseudorange3 t N = Inr r \<Longrightarrow>
   \<exists>Q'. AddPseudorange_body X G M Config t N Q = Inr Q'"
  by (cases "Type Config"; cases "MixtureType Config")
     (simp_all add: AddPseudorange_body_def Let_def)

lemma AddPseudorange_loop_Inr:
  assumes "chronological M"
  shows "\<forall>i\<in>set idxs. i < length (getElements M Pseudorange3 t) \<Longrightarrow>
         \<exists>P'. AddPseudorange_loop X G M Config t idxs Q = Inr P'"
proof (induction idxs arbitrary: Q)
  case Nil
  then show ?case by simp
next
  case (Cons i idxs)
  then obtain j where "getElement M Pseudorange3 t (int i) = Inr (StreamNode j)"
    using getElement_nth [OF assms, of i Pseudorange3 t] by auto
  then obtain Q' where "AddPseudorange_body X G M Config t (int i) Q = Inr Q'"
    using AddPseudorange_body_Inr by blast
  then show ?case using Cons by simp
qed

lemma AddPseudorangeMeasurements_Inr:
  assumes "chronological M"
  shows "\<exists>P'. AddPseudorangeMeasurements X G M Config t Q = Inr P'"
  using AddPseudorange_loop_Inr [OF assms, of "[0..<length (getElements M Pseudorange3 t)]" t]
    assms by (simp add: AddPseudorangeMeasurements_def countElement_chronological)

lemma main_loop_body_cases:
  assumes "chronological M"
  shows "\<exists>P'. main_loop_body X M Config Odom t told P = Inr P'"
proof -
  obtain r where r: "getElement M Odom3 t 0 = Inr r"
    using getElement_cases [OF assms, of 0] by auto
  define P6 where "P6 =
     call (Graph_addFactor Graph ConstDrift1
             [(CLOCK_ERROR_STATE, told), (CLOCK_DRIFT_STATE, told),
              (CLOCK_ERROR_STATE, t), (CLOCK_DRIFT_STATE, t)] None
             (GaussianDiagonal_CCED (fst (StdCCED Config)) (snd (StdCCED Config))))
      (call (Graph_addFactor Graph Odom4_ECEF
               [(POSITION_STATE, told), (ORIENTATION_STATE, told),
                (POSITION_STATE, t), (ORIENTATION_STATE, t)]
               (Some (deref M Odom3 r)) (GaussianDiagonal_Odom4DOF Odom))
       (call (Graph_addState Graph CLOCK_DRIFT_STATE ClockDrift t)
        (call (Graph_addState Graph ORIENTATION_STATE Angle t)
         (call (Graph_addState Graph CLOCK_ERROR_STATE ClockError t)
          (call (Graph_addState Graph POSITION_STATE Point3 t) P)))))"
  obtain P7 where "AddPseudorangeMeasurements X Graph M Config t P6 = Inr P7"
    using AddPseudorangeMeasurements_Inr [OF assms] by blast
  then show ?thesis
    using r by (simp add: main_loop_body_def Let_def P6_def [symmetric])
qed

lemma main_loop_cases:
  "chronological M \<Longrightarrow> \<exists>P'. main_loop X M Config Odom t told P = Inr P'"
proof (induction X M Config Odom t told P rule: main_loop.induct)
  case (1 X M Config Odom t told P)
  show ?case
  proof (cases "getTimeNext M Pseudorange3 t")
    case (Inl e)
    then have "e = NotFound" using getTimeNext_cases [of M Pseudorange3 t] by auto
    then show ?thesis using Inl by (subst main_loop.simps) simp
  next
    case (Inr t')
    obtain P' where P': "main_loop_body X M Config Odom t' told P = Inr P'"
      using main_loop_body_cases [OF "1.prems"] by blast
    show ?thesis
      using "1.IH" [OF Inr P' "1.prems"] Inr P' by (subst main_loop.simps) simp
  qed
qed

lemma ParseErrorModel_accepts:
  "fst (ParseErrorModel tok Config) = (tok \<in> set ERROR_MODEL_tokens)"
  by (simp add: ParseErrorModel_def ERROR_MODEL_tokens_def)

lemma ParseErrorModel_rejects:
  "tok \<notin> set ERROR_MODEL_tokens \<Longrightarrow> ParseErrorModel tok Config = (False, Config)"
  by (simp add: ParseErrorModel_def ERROR_MODEL_tokens_def)

lemma main_first_epoch_Inr:
  assumes "chronological M"
  shows "\<exists>P'. main_first_epoch X M Config t Program_start = Inr P'"
proof -
  obtain P1 where "InitGraph X M Config t Program_start = Inr P1"
    using InitGraph_calls [OF assms statics_from_start] by blast
  then show ?thesis by (simp add: main_first_epoch_def Let_def)
qed

lemma main_rejected:
  assumes "4 \<le> length Arguments" "Arguments ! 3 \<notin> set ERROR_MODEL_tokens"
  shows "main X Config0 Arguments = Inr (1, Program_start)"
  using assms by (simp add: main_def Let_def ParseErrorModel_rejects)

lemma main_accepted:
  assumes "4 \<le> length Arguments" "Arguments ! 3 \<in> set ERROR_MODEL_tokens"
  shows "\<exists>P. main X Config0 Arguments = Inr (0, P)"
proof -
  define Config1 where "Config1 = Config0\<lparr>InputFile := Arguments ! 0, OutputFile := Arguments ! 1\<rparr>"
  obtain Config where parse: "ParseErrorModel (Arguments ! 3) Config1 = (True, Config)"
    using ParseErrorModel_accepts [of "Arguments ! 3" Config1] assms(2)
    by (cases "ParseErrorModel (Arguments ! 3) Config1") auto
  define InputData where "InputData =
     addElements \<lparr>DataStreams = Map.empty, NullObject = SensorData_default X\<rparr>
       (ReadDataFromFile X (InputFile Config))"
  have chron: "chronological InputData"
    unfolding InputData_def by (intro chronological_addElements chronological_empty)
  have nonempty: "no_empty_stream InputData"
    unfolding InputData_def by (intro no_empty_stream_addElements no_empty_stream_empty)
  obtain t0 where t0: "(case getTimeFirst InputData Pseudorange3 of
                           Inl e \<Rightarrow> (if e = NotFound then Inr 0 else Inl e)
                         | Inr t \<Rightarrow> Inr t) = Inr t0"
    using getTimeFirst_cases [OF nonempty, of Pseudorange3] by auto
  obtain tl where tl: "(case getTimeLast InputData Pseudorange3 of
                           Inl e \<Rightarrow> (if e = NotFound then Inr None else Inl e)
                         | Inr t \<Rightarrow> Inr (Some t)) = Inr tl"
    using getTimeLast_cases [OF nonempty, of Pseudorange3] by auto
  obtain P1 where P1: "main_first_epoch X InputData Config t0 Program_start = Inr P1"
    using main_first_epoch_Inr [OF chron] by blast
  obtain r where r: "getElement InputData Odom3 t0 0 = Inr r"
    using getElement_cases [OF chron, of 0] by auto
  obtain P2 where P2: "main_loop X InputData Config (deref InputData Odom3 r) t0 t0 P1 = Inr P2"
    using main_loop_cases [OF chron] by blast
  have "main X Config0 Arguments =
      Inr (0, call (WriteDataToFile (OutputFile Config) POSITION_STATE) (call Graph_printReport P2))"
    using assms(1) parse [unfolded Config1_def] t0 tl P1 r P2
    by (simp add: main_def Let_def InputData_def [symmetric] del: main_loop.simps)
  then show ?thesis by blast
qed

section \<open>The claims about the application\<close>

subsection \<open>C2: the component that tuning appends\<close>

lemma sample_stats_1_3: "sample_mean [1, 3] = 2" "sample_stdev [1, 3] = 1"
  by (simp_all add: sample_stdev_def sample_mean_def)

text \<open>
  C2, as stated, fails. With an empty \<^verbatim>\<open>GMMAdaptive\<close> and the residuals 1 and 3 the mixture
  holds one component at the moment of appending, the sample mean is 2 and the sample
  standard deviation is 1. The appended component has the standard deviation 1, but its
  mean is 0, not 2, and its weight is 1, not 1/2.
\<close>

theorem VBI_append_example:
  "VBI_before_append example_X [] = [\<lparr>Mean = 0, StdDev = 10, Weight = 1\<rparr>]
   \<and> sample_mean [1, 3] = 2
   \<and> sample_stdev [1, 3] = 1
   \<and> VBI_append example_X [] [1, 3]
       = [\<lparr>Mean = 0, StdDev = 10, Weight = 1\<rparr>, \<lparr>Mean = 0, StdDev = 1, Weight = 1\<rparr>]
   \<and> Mean (last (VBI_append example_X [] [1, 3])) \<noteq> sample_mean [1, 3]
   \<and> Weight (last (VBI_append example_X [] [1, 3]))
       \<noteq> 1 / (real (length (VBI_before_append example_X [])) + 1)"
proof -
  have b: "VBI_before_append example_X [] = [\<lparr>Mean = 0, StdDev = 10, Weight = 1\<rparr>]"
    by (simp add: VBI_before_append_def getNumberOfComponents_def example_X_def)
  have a: "VBI_append example_X [] [1, 3]
       = [\<lparr>Mean = 0, StdDev = 10, Weight = 1\<rparr>, \<lparr>Mean = 0, StdDev = 1, Weight = 1\<rparr>]"
    by (simp add: VBI_append_def b sample_stats_1_3 setParamsStdDev_def addComponent_def
        getNumberOfComponents_def)
  show ?thesis by (simp add: a b sample_stats_1_3)
qed

lemma sample_stdev_eq:
  "sample_stdev v = sqrt ((\<Sum>x\<leftarrow>v. (x - sample_mean v)\<^sup>2) / real (length v))"
proof -
  have "map2 (\<lambda>a b. a * b) (map f v) (map f v) = map (\<lambda>x. (f x)\<^sup>2) v" for f :: "real \<Rightarrow> real"
    by (induction v) (simp_all add: power2_eq_square)
  then show ?thesis by (simp add: sample_stdev_def Let_def)
qed

text \<open>
  C2, amended. In the branch for \<^verbatim>\<open>VBI\<close>, for a residual window that is not empty and a
  mixture that holds \<open>K\<close> > 0 components at the moment of appending, exactly one
  component is appended before the estimation: its mean is 0, its standard deviation is
  the square root of the mean squared deviation of the residuals from their sample mean,
  and its weight is 1/\<open>K\<close>. The estimation and the removal of the offset then work on
  the mixture so extended.
\<close>

theorem VBI_seed:
  assumes "ErrorData \<noteq> []" "VBI_before_append X G \<noteq> []"
  shows "VBI_append X G ErrorData
           = VBI_before_append X G
             @ [\<lparr>Mean = 0, StdDev = sample_stdev ErrorData,
                 Weight = 1 / real (length (VBI_before_append X G))\<rparr>]
       \<and> sample_stdev ErrorData
           = sqrt ((\<Sum>x\<leftarrow>ErrorData. (x - sample_mean ErrorData)\<^sup>2) / real (length ErrorData))
       \<and> (TuningType Config = VBI \<longrightarrow>
            GMMAdaptive (TuneErrorModel X Config P)
              = removeOffset X
                  (estimate X (residuals X (Calls P))
                     \<lparr>EstimationAlgorithm = VBI, RemoveSmallComponents = True,
                      MergeSimiliarComponents = False, PriorWishartDOF = Some (VBI_NU X)\<rparr>
                     (VBI_append X (GMMAdaptive P) (residuals X (Calls P)))))"
proof -
  have "VBI_append X G ErrorData
           = VBI_before_append X G
             @ [\<lparr>Mean = 0, StdDev = sample_stdev ErrorData,
                 Weight = 1 / real (length (VBI_before_append X G))\<rparr>]"
    by (simp add: VBI_append_def Let_def setParamsStdDev_def addComponent_def
        getNumberOfComponents_def)
  moreover have "TuningType Config = VBI \<longrightarrow>
            GMMAdaptive (TuneErrorModel X Config P)
              = removeOffset X
                  (estimate X (residuals X (Calls P))
                     \<lparr>EstimationAlgorithm = VBI, RemoveSmallComponents = True,
                      MergeSimiliarComponents = False, PriorWishartDOF = Some (VBI_NU X)\<rparr>
                     (VBI_append X (GMMAdaptive P) (residuals X (Calls P))))"
    by (simp add: TuneErrorModel_def Let_def)
  ultimately show ?thesis using sample_stdev_eq by blast
qed

theorem VBI_seed_witness:
  "[1, 3] \<noteq> ([] :: real list) \<and> VBI_before_append example_X example_mixture \<noteq> []
   \<and> VBI_append example_X example_mixture [1, 3]
       = [\<lparr>Mean = 0, StdDev = 10, Weight = 7 / 10\<rparr>, \<lparr>Mean = 0, StdDev = 1, Weight = 1\<rparr>]"
proof -
  have b: "VBI_before_append example_X example_mixture = [\<lparr>Mean = 0, StdDev = 10, Weight = 7 / 10\<rparr>]"
    by (simp add: VBI_before_append_def example_mixture_def getNumberOfComponents_def
        sortComponentsByWeight_def removeLastComponent_def example_X_def)
  have h1: "[1, 3] \<noteq> ([] :: real list)" by simp
  have h2: "VBI_before_append example_X example_mixture \<noteq> []" by (simp add: b)
  show ?thesis
    using VBI_seed [OF h1 h2, of example_Config Program_start] h2
    by (simp add: b sample_stats_1_3)
qed

subsection \<open>C6: the cap on the number of components\<close>

text \<open>
  C6, as stated, fails in its first part. A mixture whose number of components equals
  \<^verbatim>\<open>VBI_N_MAX\<close>, and so does not exceed it, already loses its component of lowest weight.
  The example takes 2 for the macro \<^verbatim>\<open>VBI_N_MAX\<close>; the lemma after it says the same for
  every value of the macro.
\<close>

theorem VBI_removal_at_cap_example:
  "getNumberOfComponents example_mixture = VBI_N_MAX example_X
   \<and> VBI_before_append example_X example_mixture = [\<lparr>Mean = 0, StdDev = 10, Weight = 7 / 10\<rparr>]
   \<and> VBI_before_append example_X example_mixture \<noteq> example_mixture"
  by (simp add: VBI_before_append_def example_mixture_def getNumberOfComponents_def
      sortComponentsByWeight_def removeLastComponent_def example_X_def)

lemma VBI_removal_at_cap:
  assumes "G \<noteq> []" "getNumberOfComponents G = VBI_N_MAX X"
  shows "length (VBI_before_append X G) = length G - 1"
proof -
  have "getNumberOfComponents G \<noteq> 0" using assms(1) by (simp add: getNumberOfComponents_def)
  then have "VBI_before_append X G = removeLastComponent (sortComponentsByWeight G)"
    using assms(2) by (simp add: VBI_before_append_def)
  then show ?thesis by (simp add: removeLastComponent_def sortComponentsByWeight_def)
qed

lemma sortComponentsByWeight_last:
  assumes "G \<noteq> []"
  shows "sortComponentsByWeight G
           = removeLastComponent (sortComponentsByWeight G) @ [last (sortComponentsByWeight G)]"
    and "mset (removeLastComponent (sortComponentsByWeight G)) + {#last (sortComponentsByWeight G)#}
           = mset G"
    and "\<forall>c\<in>set G. Weight (last (sortComponentsByWeight G)) \<le> Weight c"
proof -
  let ?S = "sortComponentsByWeight G"
  have "length ?S = length G" by (simp add: sortComponentsByWeight_def)
  then have ne: "?S \<noteq> []" using assms by auto
  then show split: "?S = removeLastComponent ?S @ [last ?S]"
    by (simp add: removeLastComponent_def)
  have "mset ?S = mset G" by (simp add: sortComponentsByWeight_def)
  then show "mset (removeLastComponent ?S) + {#last ?S#} = mset G"
    by (subst (asm) split) simp
  have "sorted (map (\<lambda>c. - Weight c) ?S)" by (simp add: sortComponentsByWeight_def)
  then have "sorted (map (\<lambda>c. - Weight c) (removeLastComponent ?S @ [last ?S]))"
    using split by simp
  then have "\<forall>c\<in>set (removeLastComponent ?S). - Weight c \<le> - Weight (last ?S)"
    by (simp add: sorted_append)
  then have "\<forall>c\<in>set (removeLastComponent ?S @ [last ?S]). Weight (last ?S) \<le> Weight c"
    by auto
  then have "\<forall>c\<in>set ?S. Weight (last ?S) \<le> Weight c" using split by simp
  then show "\<forall>c\<in>set G. Weight (last ?S) \<le> Weight c"
    by (simp add: sortComponentsByWeight_def)
qed

lemma VBI_append_length:
  assumes "1 \<le> VBI_N_MAX X" "length (initSpread X 1 10) = 1"
    "getNumberOfComponents G \<le> VBI_N_MAX X"
  shows "getNumberOfComponents (VBI_append X G ErrorData) \<le> VBI_N_MAX X"
proof -
  define G1 where "G1 = (if getNumberOfComponents G = 0 then initSpread X 1 10 else G)"
  have G1: "getNumberOfComponents G1 \<le> VBI_N_MAX X" "G1 \<noteq> []"
    using assms by (auto simp: G1_def getNumberOfComponents_def)
  have "getNumberOfComponents (VBI_before_append X G) + 1 \<le> VBI_N_MAX X"
  proof (cases "getNumberOfComponents G1 \<ge> VBI_N_MAX X")
    case True
    then have "VBI_before_append X G = removeLastComponent (sortComponentsByWeight G1)"
      by (simp add: VBI_before_append_def G1_def)
    moreover have "length (removeLastComponent (sortComponentsByWeight G1)) = length G1 - 1"
      by (simp add: removeLastComponent_def sortComponentsByWeight_def)
    ultimately show ?thesis
      using G1 by (cases G1) (auto simp: getNumberOfComponents_def)
  next
    case False
    then have "VBI_before_append X G = G1"
      by (simp add: VBI_before_append_def G1_def)
    then show ?thesis using False by simp
  qed
  then show ?thesis
    by (simp add: VBI_append_def Let_def addComponent_def getNumberOfComponents_def)
qed

text \<open>
  C6, amended. Let \<open>G1\<close> be \<^verbatim>\<open>GMMAdaptive\<close> after the filling of an empty mixture. While
  \<open>G1\<close> holds fewer than \<^verbatim>\<open>VBI_N_MAX\<close> components nothing is removed. When it holds
  \<^verbatim>\<open>VBI_N_MAX\<close> components or more, the components are sorted by weight and the last one,
  whose weight is the lowest, is removed before the new one is appended. When
  \<^verbatim>\<open>VBI_N_MAX\<close> is at least 1, \<^verbatim>\<open>initSpread(1, 10)\<close> gives one component, and the
  estimation and the removal of the offset add no component, a mixture within the cap is
  within the cap after a tuning step.
\<close>

theorem VBI_cap:
  "(let G1 = (if getNumberOfComponents G = 0 then initSpread X 1 10 else G)
    in (getNumberOfComponents G1 < VBI_N_MAX X \<longrightarrow> VBI_before_append X G = G1)
     \<and> (getNumberOfComponents G1 \<ge> VBI_N_MAX X \<and> G1 \<noteq> [] \<longrightarrow>
          (\<exists>c. sortComponentsByWeight G1 = VBI_before_append X G @ [c]
              \<and> mset (VBI_before_append X G) + {#c#} = mset G1
              \<and> (\<forall>c'\<in>set G1. Weight c \<le> Weight c'))))
   \<and> (1 \<le> VBI_N_MAX X \<and> length (initSpread X 1 10) = 1
        \<and> (\<forall>ErrorData C G'. length (estimate X ErrorData C G') \<le> length G')
        \<and> (\<forall>G'. length (removeOffset X G') = length G')
        \<and> getNumberOfComponents (GMMAdaptive P) \<le> VBI_N_MAX X
      \<longrightarrow> getNumberOfComponents (GMMAdaptive (TuneErrorModel X Config P)) \<le> VBI_N_MAX X)"
proof -
  define G1 where "G1 = (if getNumberOfComponents G = 0 then initSpread X 1 10 else G)"
  have a: "VBI_before_append X G = G1" if "getNumberOfComponents G1 < VBI_N_MAX X"
    using that by (simp add: VBI_before_append_def G1_def)
  have b: "\<exists>c. sortComponentsByWeight G1 = VBI_before_append X G @ [c]
              \<and> mset (VBI_before_append X G) + {#c#} = mset G1
              \<and> (\<forall>c'\<in>set G1. Weight c \<le> Weight c')"
    if "getNumberOfComponents G1 \<ge> VBI_N_MAX X" "G1 \<noteq> []"
  proof -
    have "VBI_before_append X G = removeLastComponent (sortComponentsByWeight G1)"
      using that(1) by (simp add: VBI_before_append_def G1_def)
    then show ?thesis using sortComponentsByWeight_last [OF that(2)] by metis
  qed
  have c: "getNumberOfComponents (GMMAdaptive (TuneErrorModel X Config P)) \<le> VBI_N_MAX X"
    if "1 \<le> VBI_N_MAX X" "length (initSpread X 1 10) = 1"
      "\<forall>ErrorData C G'. length (estimate X ErrorData C G') \<le> length G'"
      "\<forall>G'. length (removeOffset X G') = length G'"
      "getNumberOfComponents (GMMAdaptive P) \<le> VBI_N_MAX X"
  proof (cases "TuningType Config = VBI")
    case True
    let ?E = "residuals X (Calls P)"
    let ?A = "VBI_append X (GMMAdaptive P) ?E"
    let ?C = "\<lparr>EstimationAlgorithm = VBI, RemoveSmallComponents = True,
               MergeSimiliarComponents = False, PriorWishartDOF = Some (VBI_NU X)\<rparr>"
    have "length (removeOffset X (estimate X ?E ?C ?A)) \<le> length ?A"
      using that(3,4) by simp
    moreover have "getNumberOfComponents ?A \<le> VBI_N_MAX X"
      using that(1,2,5) by (rule VBI_append_length)
    moreover have "GMMAdaptive (TuneErrorModel X Config P) = removeOffset X (estimate X ?E ?C ?A)"
      using True by (simp add: TuneErrorModel_def Let_def)
    ultimately show ?thesis by (simp add: getNumberOfComponents_def)
  next
    case False
    then have "GMMAdaptive (TuneErrorModel X Config P) = GMMAdaptive P"
      by (simp add: TuneErrorModel_def Let_def)
    then show ?thesis using that(5) by simp
  qed
  show ?thesis
    unfolding Let_def G1_def [symmetric] using a b c by blast
qed

theorem VBI_cap_witness:
  "getNumberOfComponents example_mixture \<ge> VBI_N_MAX example_X
   \<and> (\<exists>c. sortComponentsByWeight example_mixture = VBI_before_append example_X example_mixture @ [c]
          \<and> Weight c = 3 / 10)
   \<and> getNumberOfComponents (GMMAdaptive Program_start) < VBI_N_MAX example_X
   \<and> VBI_before_append example_X (GMMAdaptive Program_start) = initSpread example_X 1 10
   \<and> getNumberOfComponents
        (GMMAdaptive (TuneErrorModel example_X example_VBI_Config
                        (Program_start\<lparr>GMMAdaptive := example_mixture\<rparr>))) \<le> 2"
proof -
  note t = VBI_cap [where X = example_X and Config = example_VBI_Config, unfolded Let_def]
  have s: "sortComponentsByWeight example_mixture
      = [\<lparr>Mean = 0, StdDev = 10, Weight = 7 / 10\<rparr>, \<lparr>Mean = 5, StdDev = 10, Weight = 3 / 10\<rparr>]"
    by (simp add: sortComponentsByWeight_def example_mixture_def)
  have n: "getNumberOfComponents example_mixture = 2" "VBI_N_MAX example_X = 2"
    "example_mixture \<noteq> []"
    by (simp_all add: example_mixture_def getNumberOfComponents_def example_X_def)
  have "\<exists>c. sortComponentsByWeight example_mixture = VBI_before_append example_X example_mixture @ [c]
          \<and> mset (VBI_before_append example_X example_mixture) + {#c#} = mset example_mixture
          \<and> (\<forall>c'\<in>set example_mixture. Weight c \<le> Weight c')"
    using t [of example_mixture, THEN conjunct1, THEN conjunct2] n by simp
  then have 1: "\<exists>c. sortComponentsByWeight example_mixture
                      = VBI_before_append example_X example_mixture @ [c] \<and> Weight c = 3 / 10"
    unfolding s by auto
  have i: "initSpread example_X 1 10 = [\<lparr>Mean = 0, StdDev = 10, Weight = 1\<rparr>]"
    by (simp add: example_X_def)
  have 2: "VBI_before_append example_X (GMMAdaptive Program_start) = initSpread example_X 1 10"
    using t [of "GMMAdaptive Program_start", THEN conjunct1, THEN conjunct1] n(2) i
    by (simp add: Program_start_def getNumberOfComponents_def)
  have 3: "getNumberOfComponents
        (GMMAdaptive (TuneErrorModel example_X example_VBI_Config
                        (Program_start\<lparr>GMMAdaptive := example_mixture\<rparr>))) \<le> 2"
    using t [of _ "Program_start\<lparr>GMMAdaptive := example_mixture\<rparr>", THEN conjunct2] n i
    by (simp add: example_X_def)
  show ?thesis using 1 2 3 n by (simp add: Program_start_def getNumberOfComponents_def)
qed

subsection \<open>C7: the exit code and the table of error models\<close>

text \<open>
  C7. With four arguments or more, \<^verbatim>\<open>main\<close> returns 1 exactly when the fourth argument is
  none of the nine tokens, and returns 0 for each of the nine tokens, whatever the input
  file holds. \<^verbatim>\<open>ParseErrorModel\<close> sets the type, the mixture type and the tuning type as
  the table of the error models says; for \<^verbatim>\<open>gauss\<close>, \<^verbatim>\<open>dcs\<close> and \<^verbatim>\<open>cdce\<close> it leaves the
  mixture type as it was.
\<close>

theorem main_exit_code:
  assumes "4 \<le> length Arguments"
  shows "((\<exists>P. main X Config0 Arguments = Inr (1, P)) \<longleftrightarrow> Arguments ! 3 \<notin> set ERROR_MODEL_tokens)
       \<and> (Arguments ! 3 \<in> set ERROR_MODEL_tokens \<longrightarrow> (\<exists>P. main X Config0 Arguments = Inr (0, P)))
       \<and> ParseErrorModel ''gauss'' Config = (True, Config\<lparr>Type := Gaussian, TuningType := None_Tuning\<rparr>)
       \<and> ParseErrorModel ''dcs'' Config = (True, Config\<lparr>Type := DCS, TuningType := None_Tuning\<rparr>)
       \<and> ParseErrorModel ''cdce'' Config = (True, Config\<lparr>Type := cDCE, TuningType := None_Tuning\<rparr>)
       \<and> ParseErrorModel ''sm'' Config
           = (True, Config\<lparr>Type := GMM, MixtureType := SumMix, TuningType := None_Tuning\<rparr>)
       \<and> ParseErrorModel ''mm'' Config
           = (True, Config\<lparr>Type := GMM, MixtureType := MaxMix, TuningType := None_Tuning\<rparr>)
       \<and> ParseErrorModel ''stsm'' Config
           = (True, Config\<lparr>Type := GMM, MixtureType := SumMix, TuningType := EM\<rparr>)
       \<and> ParseErrorModel ''stmm'' Config
           = (True, Config\<lparr>Type := GMM, MixtureType := MaxMix, TuningType := EM\<rparr>)
       \<and> ParseErrorModel ''stsm_vbi'' Config
           = (True, Config\<lparr>Type := GMM, MixtureType := SumMix, TuningType := VBI\<rparr>)
       \<and> ParseErrorModel ''stmm_vbi'' Config
           = (True, Config\<lparr>Type := GMM, MixtureType := MaxMix, TuningType := VBI\<rparr>)"
proof -
  have "(\<exists>P. main X Config0 Arguments = Inr (1, P)) \<longleftrightarrow> Arguments ! 3 \<notin> set ERROR_MODEL_tokens"
    using main_accepted [OF assms, of X Config0] main_rejected [OF assms, of X Config0] by auto
  moreover have "Arguments ! 3 \<in> set ERROR_MODEL_tokens \<longrightarrow> (\<exists>P. main X Config0 Arguments = Inr (0, P))"
    using main_accepted [OF assms] by blast
  ultimately show ?thesis by (simp add: ParseErrorModel_def)
qed

theorem main_exit_code_witness:
  "(4::nat) \<le> length [''in'', ''out'', ''0'', ''stsm_vbi'']
   \<and> (\<exists>P. main example_X example_Config [''in'', ''out'', ''0'', ''stsm_vbi''] = Inr (0, P))
   \<and> main example_X example_Config [''in'', ''out'', ''0'', ''STSM''] = Inr (1, Program_start)"
proof -
  have h: "4 \<le> length [''in'', ''out'', ''0'', ''stsm_vbi'']" by simp
  have h': "4 \<le> length [''in'', ''out'', ''0'', ''STSM'']" by simp
  have "\<exists>P. main example_X example_Config [''in'', ''out'', ''0'', ''stsm_vbi''] = Inr (0, P)"
    using main_exit_code [OF h, of example_X example_Config] by (simp add: ERROR_MODEL_tokens_def)
  moreover have "\<exists>P. main example_X example_Config [''in'', ''out'', ''0'', ''STSM''] = Inr (1, P)"
    using main_exit_code [OF h', of example_X example_Config] by (simp add: ERROR_MODEL_tokens_def)
  then have "main example_X example_Config [''in'', ''out'', ''0'', ''STSM''] = Inr (1, Program_start)"
    by (simp add: main_def ParseErrorModel_def)
  ultimately show ?thesis by simp
qed

subsection \<open>C8: the first timestamp\<close>

lemma example_InputData_eq:
  "example_InputData =
     \<lparr>DataStreams = [Pseudorange3 \<mapsto> [(0, 7), (0, 8)], Odom3 \<mapsto> [(0, 5)]], NullObject = 0\<rparr>"
  by (simp add: example_InputData_def addElement_def checkID_def mm_defs)

lemma example_getElements: "getElements example_InputData Pseudorange3 0 = [7, 8]"
  by (simp add: example_InputData_eq getElements_def mm_defs)

lemma chronological_example: "chronological example_InputData"
  unfolding example_InputData_def by (intro chronological_addElements chronological_empty)

lemma pseudorange_factors_Gaussian:
  "pseudorange_factors X G (Config\<lparr>Type := Gaussian\<rparr>) t ms
     = map (\<lambda>m. Graph_addFactor G Pseudorange3_ECEF (ListPseudorange t) (Some m)
                   (GaussianDiagonal_StdDev m)) ms"
  by (induction ms) (simp_all add: pseudorange_factors_def pseudorange_noise_def)

lemma first_epoch_example:
  "calls_of (main_first_epoch example_X example_InputData example_Config 0
                          (Program_start :: nat Program))
     = [Graph_addState SimpleGraph POSITION_STATE Point3 0,
      Graph_addState SimpleGraph CLOCK_ERROR_STATE ClockError 0,
      Graph_addFactor SimpleGraph Pseudorange3_ECEF (ListPseudorange 0) (Some 7)
        (GaussianDiagonal_StdDev 7),
      Graph_addFactor SimpleGraph Pseudorange3_ECEF (ListPseudorange 0) (Some 8)
        (GaussianDiagonal_StdDev 8),
      Graph_solve SimpleGraph,
      Graph_addState Graph POSITION_STATE Point3 0,
      Graph_addState Graph CLOCK_ERROR_STATE ClockError 0,
      Graph_addState Graph ORIENTATION_STATE Angle 0,
      Graph_addState Graph CLOCK_DRIFT_STATE ClockDrift 0,
      Graph_setMean_from_SimpleGraph POSITION_STATE 0,
      Graph_setMean_from_SimpleGraph CLOCK_ERROR_STATE 0,
      Graph_addFactor Graph Pseudorange3_ECEF (ListPseudorange 0) (Some 7)
        (GaussianDiagonal_StdDev 7),
      Graph_addFactor Graph Pseudorange3_ECEF (ListPseudorange 0) (Some 8)
        (GaussianDiagonal_StdDev 8),
      Graph_solve Graph,
      Graph_solve Graph,
      Result_addElement POSITION_STATE 0]"
proof -
  have g: "getElement example_InputData Pseudorange3 0 0 = Inr (StreamNode 0)"
    "getElement example_InputData Pseudorange3 0 1 = Inr (StreamNode (Suc 0))"
    "countElement example_InputData Pseudorange3 0 = 2"
    "deref example_InputData Pseudorange3 (StreamNode 0) = 7"
    "deref example_InputData Pseudorange3 (StreamNode (Suc 0)) = 8"
    by (simp_all add: example_InputData_eq getElement_def checkElement_def countElement_def
        deref_def mm_defs)
  have u: "[0..<2] = [0, Suc 0]" by (simp add: upt_rec)
  have a: "AddPseudorangeMeasurements example_X G example_InputData
             (example_Config\<lparr>Type := Gaussian\<rparr>) 0 P
           = Inr (call (Graph_addFactor G Pseudorange3_ECEF (ListPseudorange 0) (Some 8)
                          (GaussianDiagonal_StdDev 8))
                   (call (Graph_addFactor G Pseudorange3_ECEF (ListPseudorange 0) (Some 7)
                          (GaussianDiagonal_StdDev 7)) P))" for G and P :: "nat Program"
    by (simp add: AddPseudorangeMeasurements_def g u AddPseudorange_body_def Let_def)
  have e: "example_Config\<lparr>Type := Gaussian\<rparr> = example_Config" by (simp add: example_Config_def)
  show ?thesis
    using a [of SimpleGraph] a [of Graph, unfolded e]
    by (simp add: main_first_epoch_def InitGraph_def Let_def calls_of_def TuneErrorModel_def
        Program_start_def)
       (simp add: example_Config_def)
qed

text \<open>
  C8, as stated, fails in the order of two steps: the claim copies the means into the main
  graph and then adds the \<^verbatim>\<open>Angle\<close> and \<^verbatim>\<open>ClockDrift\<close> states, while \<^verbatim>\<open>InitGraph\<close> adds
  all four states to the main graph and copies the means afterwards. In the run on the
  example data the \<^verbatim>\<open>Angle\<close> state is added before the position mean is copied, and no
  mean is copied before it.
\<close>

theorem first_epoch_Angle_before_copy:
  "Graph_addState Graph ORIENTATION_STATE Angle 0
     \<in> set (takeWhile (\<lambda>c. c \<noteq> Graph_setMean_from_SimpleGraph POSITION_STATE 0)
              (calls_of (main_first_epoch example_X example_InputData example_Config 0
                          (Program_start :: nat Program))))
   \<and> Graph_setMean_from_SimpleGraph POSITION_STATE 0
     \<notin> set (takeWhile (\<lambda>c. c \<noteq> Graph_addState Graph ORIENTATION_STATE Angle 0)
              (calls_of (main_first_epoch example_X example_InputData example_Config 0
                          (Program_start :: nat Program))))"
  by (simp add: first_epoch_example)

lemma example_VBI_Config_fields:
  "Type example_VBI_Config = GMM" "MixtureType example_VBI_Config = MaxMix"
  "TuningType example_VBI_Config = VBI"
  by (simp_all add: example_VBI_Config_def ParseErrorModel_def)

lemma VBI_append_1_3:
  "VBI_append example_X [] [1, 3]
     = [\<lparr>Mean = 0, StdDev = 10, Weight = 1\<rparr>, \<lparr>Mean = 0, StdDev = 1, Weight = 1\<rparr>]"
proof -
  have "VBI_before_append example_X [] = [\<lparr>Mean = 0, StdDev = 10, Weight = 1\<rparr>]"
    by (simp add: VBI_before_append_def getNumberOfComponents_def example_X_def)
  then show ?thesis
    by (simp add: VBI_append_def sample_stats_1_3 setParamsStdDev_def addComponent_def
        getNumberOfComponents_def)
qed

text \<open>
  C8, amended. At the first timestamp \<open>t0\<close>, from the start of the run: the states
  \<^verbatim>\<open>Point3\<close> and \<^verbatim>\<open>ClockError\<close> at \<open>t0\<close> are added to the throwaway graph, then one
  Gaussian pseudorange factor for every pseudorange at \<open>t0\<close>, and the throwaway graph is
  solved once; the four states at \<open>t0\<close> are added to the main graph; the means of the
  position and of the clock error are copied into the main graph; the pseudoranges at
  \<open>t0\<close> are added under the configured error model; the main graph is solved; it is
  tuned, by the calls that \<^verbatim>\<open>TuneErrorModel\<close> makes in the state that \<^verbatim>\<open>InitGraph\<close> and
  the first solve leave, where the adaptive mixture is still empty; the main graph is
  solved again; then the first result is recorded. Tuning makes no call when the tuning
  type is \<^verbatim>\<open>None\<close>, and computes the residuals first for every other tuning type.
\<close>

theorem first_epoch_calls:
  assumes "chronological InputData"
  shows "let before_tuning =
         [Graph_addState SimpleGraph POSITION_STATE Point3 t0,
          Graph_addState SimpleGraph CLOCK_ERROR_STATE ClockError t0]
         @ map (\<lambda>m. Graph_addFactor SimpleGraph Pseudorange3_ECEF (ListPseudorange t0) (Some m)
                       (GaussianDiagonal_StdDev m)) (getElements InputData Pseudorange3 t0)
         @ [Graph_solve SimpleGraph,
            Graph_addState Graph POSITION_STATE Point3 t0,
            Graph_addState Graph CLOCK_ERROR_STATE ClockError t0,
            Graph_addState Graph ORIENTATION_STATE Angle t0,
            Graph_addState Graph CLOCK_DRIFT_STATE ClockDrift t0,
            Graph_setMean_from_SimpleGraph POSITION_STATE t0,
            Graph_setMean_from_SimpleGraph CLOCK_ERROR_STATE t0]
         @ pseudorange_factors X Graph Config t0 (getElements InputData Pseudorange3 t0)
         @ [Graph_solve Graph]
     in calls_of (main_first_epoch X InputData Config t0 Program_start) =
          before_tuning @ tuning_calls X Config [] before_tuning
          @ [Graph_solve Graph, Result_addElement POSITION_STATE t0]
      \<and> (\<exists>P1. InitGraph X InputData Config t0 Program_start = Inr P1
             \<and> Calls (call (Graph_solve Graph) P1) = before_tuning
             \<and> GMMAdaptive (call (Graph_solve Graph) P1) = []
             \<and> Calls (TuneErrorModel X Config (call (Graph_solve Graph) P1))
                 = before_tuning @ tuning_calls X Config [] before_tuning)
      \<and> (TuningType Config = None_Tuning \<longrightarrow> tuning_calls X Config [] before_tuning = [])
      \<and> (TuningType Config \<noteq> None_Tuning \<longrightarrow>
            hd (tuning_calls X Config [] before_tuning)
              = Graph_computeUnweightedError Pseudorange3_ECEF
            \<and> tuning_calls X Config [] before_tuning \<noteq> [])"
proof -
  define b where "b =
         [Graph_addState SimpleGraph POSITION_STATE Point3 t0,
          Graph_addState SimpleGraph CLOCK_ERROR_STATE ClockError t0]
         @ map (\<lambda>m. Graph_addFactor SimpleGraph Pseudorange3_ECEF (ListPseudorange t0) (Some m)
                       (GaussianDiagonal_StdDev m)) (getElements InputData Pseudorange3 t0)
         @ [Graph_solve SimpleGraph,
            Graph_addState Graph POSITION_STATE Point3 t0,
            Graph_addState Graph CLOCK_ERROR_STATE ClockError t0,
            Graph_addState Graph ORIENTATION_STATE Angle t0,
            Graph_addState Graph CLOCK_DRIFT_STATE ClockDrift t0,
            Graph_setMean_from_SimpleGraph POSITION_STATE t0,
            Graph_setMean_from_SimpleGraph CLOCK_ERROR_STATE t0]
         @ pseudorange_factors X Graph Config t0 (getElements InputData Pseudorange3 t0)
         @ [Graph_solve Graph]"
  obtain P1 where P1: "InitGraph X InputData Config t0 Program_start = Inr P1"
    "Calls P1 = Calls (Program_start :: 'a Program)
        @ [Graph_addState SimpleGraph POSITION_STATE Point3 t0,
           Graph_addState SimpleGraph CLOCK_ERROR_STATE ClockError t0]
        @ pseudorange_factors X SimpleGraph (Config\<lparr>Type := Gaussian\<rparr>) t0
            (getElements InputData Pseudorange3 t0)
        @ [Graph_solve SimpleGraph,
           Graph_addState Graph POSITION_STATE Point3 t0,
           Graph_addState Graph CLOCK_ERROR_STATE ClockError t0,
           Graph_addState Graph ORIENTATION_STATE Angle t0,
           Graph_addState Graph CLOCK_DRIFT_STATE ClockDrift t0,
           Graph_setMean_from_SimpleGraph POSITION_STATE t0,
           Graph_setMean_from_SimpleGraph CLOCK_ERROR_STATE t0]
        @ pseudorange_factors X Graph Config t0 (getElements InputData Pseudorange3 t0)"
    "GMMAdaptive P1 = GMMAdaptive (Program_start :: 'a Program)"
    using InitGraph_calls [OF assms statics_from_start, of X Config t0] by blast
  define P2 where "P2 = call (Graph_solve Graph) P1"
  have c2: "Calls P2 = b"
    by (simp add: P2_def b_def P1(2) Program_start_def pseudorange_factors_Gaussian)
  have g2: "GMMAdaptive P2 = []"
    by (simp add: P2_def P1(3) Program_start_def)
  have t2: "Calls (TuneErrorModel X Config P2) = b @ tuning_calls X Config [] b"
    using TuneErrorModel_tuning_calls [of X Config P2] by (simp add: c2 g2)
  have "calls_of (main_first_epoch X InputData Config t0 Program_start)
          = Calls (TuneErrorModel X Config P2)
            @ [Graph_solve Graph, Result_addElement POSITION_STATE t0]"
    using P1(1) by (simp add: main_first_epoch_def calls_of_def Let_def P2_def)
  then have 1: "calls_of (main_first_epoch X InputData Config t0 Program_start)
          = b @ tuning_calls X Config [] b
            @ [Graph_solve Graph, Result_addElement POSITION_STATE t0]"
    by (simp add: t2)
  have 2: "\<exists>P1. InitGraph X InputData Config t0 Program_start = Inr P1
             \<and> Calls (call (Graph_solve Graph) P1) = b
             \<and> GMMAdaptive (call (Graph_solve Graph) P1) = []
             \<and> Calls (TuneErrorModel X Config (call (Graph_solve Graph) P1))
                 = b @ tuning_calls X Config [] b"
    using P1(1) c2 g2 t2 unfolding P2_def by blast
  have 3: "TuningType Config = None_Tuning \<longrightarrow> tuning_calls X Config [] b = []"
    by (simp add: tuning_calls_def)
  have 4: "TuningType Config \<noteq> None_Tuning \<longrightarrow>
            hd (tuning_calls X Config [] b) = Graph_computeUnweightedError Pseudorange3_ECEF
            \<and> tuning_calls X Config [] b \<noteq> []"
    by (simp add: tuning_calls_def)
  show ?thesis
    unfolding Let_def b_def [symmetric] using 1 2 3 4 by blast
qed

theorem first_epoch_calls_witness:
  "chronological example_InputData
   \<and> TuningType example_VBI_Config = VBI
   \<and> calls_of (main_first_epoch example_X example_InputData example_VBI_Config 0 Program_start) =
     [Graph_addState SimpleGraph POSITION_STATE Point3 0,
      Graph_addState SimpleGraph CLOCK_ERROR_STATE ClockError 0,
      Graph_addFactor SimpleGraph Pseudorange3_ECEF (ListPseudorange 0) (Some 7)
        (GaussianDiagonal_StdDev 7),
      Graph_addFactor SimpleGraph Pseudorange3_ECEF (ListPseudorange 0) (Some 8)
        (GaussianDiagonal_StdDev 8),
      Graph_solve SimpleGraph,
      Graph_addState Graph POSITION_STATE Point3 0,
      Graph_addState Graph CLOCK_ERROR_STATE ClockError 0,
      Graph_addState Graph ORIENTATION_STATE Angle 0,
      Graph_addState Graph CLOCK_DRIFT_STATE ClockDrift 0,
      Graph_setMean_from_SimpleGraph POSITION_STATE 0,
      Graph_setMean_from_SimpleGraph CLOCK_ERROR_STATE 0,
      Graph_addFactor Graph Pseudorange3_ECEF (ListPseudorange 0) (Some 7)
        (MaxMix1 [\<lparr>Mean = 0, StdDev = 10, Weight = 1 / 2\<rparr>,
                  \<lparr>Mean = 0, StdDev = 10, Weight = 1 / 2\<rparr>]),
      Graph_addFactor Graph Pseudorange3_ECEF (ListPseudorange 0) (Some 8)
        (MaxMix1 [\<lparr>Mean = 0, StdDev = 10, Weight = 1 / 2\<rparr>,
                  \<lparr>Mean = 0, StdDev = 10, Weight = 1 / 2\<rparr>]),
      Graph_solve Graph,
      Graph_computeUnweightedError Pseudorange3_ECEF,
      Graph_setNewErrorModel Pseudorange3_ECEF
        (MaxMix1 [\<lparr>Mean = 0, StdDev = 10, Weight = 1\<rparr>, \<lparr>Mean = 0, StdDev = 1, Weight = 1\<rparr>]),
      Graph_solve Graph,
      Result_addElement POSITION_STATE 0]"
proof -
  have x: "residuals example_X cs = [1, 3]" "estimate example_X e c G = G"
    "removeOffset example_X G = G"
    "initSpread example_X 2 10
       = [\<lparr>Mean = 0, StdDev = 10, Weight = 1 / 2\<rparr>, \<lparr>Mean = 0, StdDev = 10, Weight = 1 / 2\<rparr>]"
    for cs :: "nat Call list" and e c G
    by (simp_all add: example_X_def numeral_2_eq_2)
  have t: "tuning_calls example_X example_VBI_Config [] cs
      = [Graph_computeUnweightedError Pseudorange3_ECEF,
         Graph_setNewErrorModel Pseudorange3_ECEF
           (MaxMix1 [\<lparr>Mean = 0, StdDev = 10, Weight = 1\<rparr>, \<lparr>Mean = 0, StdDev = 1, Weight = 1\<rparr>])]"
    for cs :: "nat Call list"
    by (simp add: tuning_calls_def example_VBI_Config_fields x VBI_append_1_3)
  have f: "pseudorange_factors example_X Graph example_VBI_Config 0 [7, 8]
      = [Graph_addFactor Graph Pseudorange3_ECEF (ListPseudorange 0) (Some 7)
          (MaxMix1 [\<lparr>Mean = 0, StdDev = 10, Weight = 1 / 2\<rparr>,
                    \<lparr>Mean = 0, StdDev = 10, Weight = 1 / 2\<rparr>]),
         Graph_addFactor Graph Pseudorange3_ECEF (ListPseudorange 0) (Some 8)
          (MaxMix1 [\<lparr>Mean = 0, StdDev = 10, Weight = 1 / 2\<rparr>,
                    \<lparr>Mean = 0, StdDev = 10, Weight = 1 / 2\<rparr>])]"
    by (simp add: pseudorange_factors_def pseudorange_noise_def GMM_init_def
        example_VBI_Config_fields x)
  show ?thesis
    using first_epoch_calls [of example_InputData 0 example_X example_VBI_Config,
        OF chronological_example, unfolded Let_def, THEN conjunct1]
      chronological_example
    by (simp add: example_getElements f t example_VBI_Config_fields)
qed

subsection \<open>C9: tuning without a tuning type\<close>

text \<open>
  C9. With the tuning type \<^verbatim>\<open>None\<close>, which the tokens \<^verbatim>\<open>gauss\<close>, \<^verbatim>\<open>dcs\<close>, \<^verbatim>\<open>cdce\<close>,
  \<^verbatim>\<open>sm\<close> and \<^verbatim>\<open>mm\<close> set, \<^verbatim>\<open>TuneErrorModel\<close> returns the state of the run as it was: no
  call is made to the graph (no residuals computed, no error model replaced) and the
  adaptive mixture is left alone.
\<close>

theorem TuneErrorModel_without_tuning:
  "(TuningType Config = None_Tuning \<longrightarrow> TuneErrorModel X Config P = P)
   \<and> (tok \<in> set [''gauss'', ''dcs'', ''cdce'', ''sm'', ''mm''] \<longrightarrow>
        TuningType (snd (ParseErrorModel tok Config)) = None_Tuning
        \<and> TuneErrorModel X (snd (ParseErrorModel tok Config)) P = P)"
proof -
  have "TuningType (snd (ParseErrorModel tok Config)) = None_Tuning"
    if "tok \<in> set [''gauss'', ''dcs'', ''cdce'', ''sm'', ''mm'']"
    using that by (auto simp: ParseErrorModel_def)
  then show ?thesis by (auto simp: TuneErrorModel_None)
qed

theorem TuneErrorModel_without_tuning_witness:
  "TuningType (snd (ParseErrorModel ''sm'' example_Config)) = None_Tuning
   \<and> TuneErrorModel example_X (snd (ParseErrorModel ''sm'' example_Config))
        (Program_start\<lparr>GMMAdaptive := example_mixture\<rparr>)
      = Program_start\<lparr>GMMAdaptive := example_mixture\<rparr>"
  using TuneErrorModel_without_tuning [where tok = "''sm''" and Config = example_Config
      and X = example_X and P = "Program_start\<lparr>GMMAdaptive := example_mixture\<rparr>"]
  by simp

end
